theory Spec2Isabelle
  imports Main "HOL-Library.Word"
begin

section \<open>Go library functions used by the relay\<close>

text \<open>
  Go's \<^verbatim>\<open>int\<close> is 64 bits wide on the platforms the relay is built for. Values are
  kept as mathematical integers and \<open>wrap64\<close> is applied where the source adds, so the
  overflow of \<^verbatim>\<open>h + 1\<close> is part of the model.
\<close>

definition wrap64 :: "int \<Rightarrow> int" where
  "wrap64 x = (x + 2 ^ 63) mod 2 ^ 64 - 2 ^ 63"

definition isDigit :: "char \<Rightarrow> bool" where
  "isDigit c = (48 \<le> (of_char c :: nat) \<and> (of_char c :: nat) \<le> 57)"

definition digitVal :: "char \<Rightarrow> nat" where
  "digitVal c = (of_char c :: nat) - 48"

text \<open>The digit loop of \<^verbatim>\<open>strconv\<close>: any byte that is not a decimal digit is a syntax error.\<close>

fun digitsVal :: "nat \<Rightarrow> string \<Rightarrow> nat option" where
  "digitsVal n [] = Some n"
| "digitsVal n (c # cs) = (if isDigit c then digitsVal (10 * n + digitVal c) cs else None)"

text \<open>
  \<^verbatim>\<open>strconv.Atoi\<close>: an optional sign, then at least one decimal digit, nothing else;
  a value outside the 64-bit range is an error as well. \<open>None\<close> is the non-nil error.
\<close>

definition Atoi :: "string \<Rightarrow> int option" where
  "Atoi s =
     (let neg = (s \<noteq> [] \<and> hd s = CHR ''-'');
          ds = (if s \<noteq> [] \<and> (hd s = CHR ''-'' \<or> hd s = CHR ''+'') then tl s else s)
      in if ds = [] then None
         else (case digitsVal 0 ds of
                 None \<Rightarrow> None
               | Some n \<Rightarrow>
                   (let v = (if neg then - int n else int n)
                    in if - (2 ^ 63) \<le> v \<and> v < 2 ^ 63 then Some v else None)))"

text \<open>The digit table of \<^verbatim>\<open>strconv\<close>; it is only read below 10.\<close>

definition digitChar :: "nat \<Rightarrow> char" where
  "digitChar d = ''0123456789'' ! d"

fun natDigits :: "nat \<Rightarrow> string" where
  "natDigits n = (if n < 10 then [digitChar n] else natDigits (n div 10) @ [digitChar (n mod 10)])"

declare natDigits.simps [simp del]

text \<open>\<^verbatim>\<open>strconv.Itoa\<close>, also the \<^verbatim>\<open>%d\<close> verb of \<^verbatim>\<open>fmt.Sprintf\<close>.\<close>

definition Itoa :: "int \<Rightarrow> string" where
  "Itoa i = (if i < 0 then CHR ''-'' # natDigits (nat (- i)) else natDigits (nat i))"

section \<open>Payloads (pkg/http)\<close>

text \<open>
  \<^verbatim>\<open>HTTPRequestPayload\<close> and \<^verbatim>\<open>HTTPResponsePayload\<close>. Byte slices are strings
  (a \<open>char\<close> is a byte); the timestamp and duration fields are wall-clock readings and are
  left out.
\<close>

record HTTPRequestPayload =
  req_RequestID :: string
  req_Method :: string
  req_Path :: string
  req_Query :: "string \<rightharpoonup> string"
  req_Headers :: "string \<rightharpoonup> string"
  req_Body :: string
  req_RemoteAddr :: string
  req_LocalAddr :: string
  req_TLS :: bool

record HTTPResponsePayload =
  resp_RequestID :: string
  resp_StatusCode :: int
  resp_Headers :: "string \<rightharpoonup> string"
  resp_Body :: string

text \<open>
  An event of the bus (\<^verbatim>\<open>event.Event\<close> of the pipeline module, outside the
  repository): its type, source and metadata, and what \<^verbatim>\<open>evt.DecodePayload\<close> gives
  for the payload type the reader asks for (\<open>None\<close> is the decode error). The JSON codec
  itself is not modelled: an event made by \<^verbatim>\<open>event.NewEvent\<close> decodes to the payload
  it was made from.
\<close>

record 'p Event =
  ev_Type :: string
  ev_Source :: string
  ev_Metadata :: "string \<rightharpoonup> string"
  ev_DecodePayload :: "'p option"

definition NewEvent :: "string \<Rightarrow> string \<Rightarrow> 'p \<Rightarrow> 'p Event" where
  "NewEvent t src payload =
     \<lparr>ev_Type = t, ev_Source = src, ev_Metadata = Map.empty, ev_DecodePayload = Some payload\<rparr>"

definition WithMetadata :: "string \<Rightarrow> string \<Rightarrow> 'p Event \<Rightarrow> 'p Event" where
  "WithMetadata k v e = e\<lparr>ev_Metadata := (ev_Metadata e)(k \<mapsto> v)\<rparr>"

section \<open>The relay node (examples/relay-node/main.go)\<close>

text \<open>
  The atomic counters are \<^verbatim>\<open>atomic.Uint64\<close>: addition wraps at \<open>2 ^ 64\<close>. The
  totals (\<^verbatim>\<open>Stats\<close>) have the same four fields and share the record.
\<close>

record AdapterStats =
  received :: "64 word"
  forwarded :: "64 word"
  dropped :: "64 word"
  errors :: "64 word"

text \<open>
  A route holds a pointer to its counters; \<open>stats\<close> is that pointer, an address into
  \<open>statsHeap\<close>.
\<close>

record adapterRoute =
  route_id :: string
  listenAddr :: string
  nextHop :: string
  stats :: nat

text \<open>What \<^verbatim>\<open>main\<close> fixes before the workers start and \<^verbatim>\<open>processEvent\<close> closes over.\<close>

record RelayConfig =
  adapterRoutes :: "string \<rightharpoonup> adapterRoute"
  routesInOrder :: "adapterRoute list"
  maxHops :: int
  nodeName :: string

record RelayState =
  totalStats :: AdapterStats
  statsHeap :: "nat \<Rightarrow> AdapterStats"

text \<open>
  What one call of \<^verbatim>\<open>processEvent\<close> starts besides updating counters: the goroutine
  that calls \<^verbatim>\<open>forwardRequest(r.nextHop, p, hc, nodeName, observer)\<close>, and the publish of
  a response event. Log lines and Prometheus metrics are not modelled.
\<close>

datatype Action =
    Forward adapterRoute HTTPRequestPayload int
  | Publish "HTTPResponsePayload Event"

fun isForward :: "Action \<Rightarrow> bool" where
  "isForward (Forward r p hc) = True"
| "isForward (Publish e) = False"

definition forwardCalls :: "Action list \<Rightarrow> nat" where
  "forwardCalls as = length (filter isForward as)"

text \<open>Lines 226-230: the route of the event's adapter, the first route when the id is unknown.
  A missing metadata key reads as the empty string; \<^verbatim>\<open>routesInOrder[0]\<close> on an empty slice
  panics (\<open>None\<close>).\<close>

definition resolveRoute :: "RelayConfig \<Rightarrow> HTTPRequestPayload Event \<Rightarrow> adapterRoute option" where
  "resolveRoute cfg evt =
     (let adapterID = (case ev_Metadata evt ''adapter_id'' of None \<Rightarrow> [] | Some v \<Rightarrow> v)
      in case adapterRoutes cfg adapterID of
           Some route \<Rightarrow> Some route
         | None \<Rightarrow> (case routesInOrder cfg of [] \<Rightarrow> None | r # rs \<Rightarrow> Some r))"

text \<open>Lines 253-258.\<close>

definition hopCountOf :: "(string \<rightharpoonup> string) \<Rightarrow> int" where
  "hopCountOf headers =
     (case headers ''X-Hop-Count'' of
        None \<Rightarrow> 1
      | Some hopHeader \<Rightarrow> (case Atoi hopHeader of None \<Rightarrow> 1 | Some h \<Rightarrow> wrap64 (h + 1)))"

definition incReceived :: "AdapterStats \<Rightarrow> AdapterStats" where
  "incReceived a = a\<lparr>received := received a + 1\<rparr>"

definition incForwarded :: "AdapterStats \<Rightarrow> AdapterStats" where
  "incForwarded a = a\<lparr>forwarded := forwarded a + 1\<rparr>"

definition incDropped :: "AdapterStats \<Rightarrow> AdapterStats" where
  "incDropped a = a\<lparr>dropped := dropped a + 1\<rparr>"

definition incErrors :: "AdapterStats \<Rightarrow> AdapterStats" where
  "incErrors a = a\<lparr>errors := errors a + 1\<rparr>"

text \<open>\<open>bump f route st\<close>: the same counter of the totals and of the route, as the source
  does in pairs (\<^verbatim>\<open>totalStats.x.Add(1); route.stats.x.Add(1)\<close>).\<close>

definition bump :: "(AdapterStats \<Rightarrow> AdapterStats) \<Rightarrow> adapterRoute \<Rightarrow> RelayState \<Rightarrow> RelayState" where
  "bump f route st =
     st\<lparr>totalStats := f (totalStats st),
        statsHeap := (statsHeap st)(stats route := f (statsHeap st (stats route)))\<rparr>"

text \<open>Lines 268-276: the response published for a dropped request.\<close>

definition dropResponse :: "RelayConfig \<Rightarrow> HTTPRequestPayload \<Rightarrow> HTTPResponsePayload Event" where
  "dropResponse cfg payload =
     WithMetadata ''request_id'' (req_RequestID payload)
       (NewEvent ''net.http.response'' (nodeName cfg)
          \<lparr>resp_RequestID = req_RequestID payload, resp_StatusCode = 200,
           resp_Headers = [''Content-Type'' \<mapsto> ''text/plain''],
           resp_Body = ''Max hops reached at '' @ nodeName cfg\<rparr>)"

text \<open>Lines 295-312: the acknowledgement published for a forwarded request.\<close>

definition ackResponse :: "RelayConfig \<Rightarrow> HTTPRequestPayload \<Rightarrow> int \<Rightarrow> HTTPResponsePayload Event" where
  "ackResponse cfg payload hopCount =
     WithMetadata ''request_id'' (req_RequestID payload)
       (NewEvent ''net.http.response'' (nodeName cfg)
          \<lparr>resp_RequestID = req_RequestID payload, resp_StatusCode = 200,
           resp_Headers = [''Content-Type'' \<mapsto> ''text/plain'',
                           ''X-Relay-Node'' \<mapsto> nodeName cfg,
                           ''X-Hop-Count'' \<mapsto> Itoa hopCount],
           resp_Body = ''Relayed by '' @ nodeName cfg @ '' (hop '' @ Itoa hopCount @ '')''\<rparr>)"

text \<open>
  \<^verbatim>\<open>processEvent\<close>, lines 225-314. \<open>newEventFails\<close> is the error of the
  \<^verbatim>\<open>event.NewEvent\<close> call of line 307 (the codec is outside the repository); the call of
  line 275 discards its error. The result is \<open>None\<close> when the source panics on an empty
  route list, else the new counters and the actions started, in order.
\<close>

definition processEvent :: "RelayConfig \<Rightarrow> bool \<Rightarrow> RelayState \<Rightarrow> HTTPRequestPayload Event \<Rightarrow> (RelayState \<times> Action list) option" where
  "processEvent cfg newEventFails st evt =
     (case resolveRoute cfg evt of
        None \<Rightarrow> None
      | Some route \<Rightarrow>
          (let st1 = bump incReceived route st
           in case ev_DecodePayload evt of
                None \<Rightarrow> Some (bump incErrors route st1, [])
              | Some payload \<Rightarrow>
                  (let hopCount = hopCountOf (req_Headers payload)
                   in if hopCount > maxHops cfg
                      then Some (bump incDropped route st1, [Publish (dropResponse cfg payload)])
                      else if newEventFails
                      then Some (st1, [Forward route payload hopCount])
                      else Some (st1, [Forward route payload hopCount,
                                       Publish (ackResponse cfg payload hopCount)]))))"

section \<open>Forwarding (forwardRequest)\<close>

text \<open>
  The outbound request as \<^verbatim>\<open>forwardRequest\<close> builds it. Header keys are kept as the
  payload has them: \<^verbatim>\<open>handleRequest\<close> copies them from \<^verbatim>\<open>r.Header\<close>, where they are
  already in the canonical form \<^verbatim>\<open>Header.Set\<close> would give them.
\<close>

record Request =
  out_Method :: string
  out_URL :: string
  out_Header :: "string \<rightharpoonup> string"
  out_Body :: string

text \<open>
  The network as \<^verbatim>\<open>forwardRequest\<close> meets it: whether \<^verbatim>\<open>http.NewRequest\<close> rejects the
  URL, and what \<^verbatim>\<open>relayClient.Do\<close> returns (\<open>None\<close> is its error, else the status of
  the response).
\<close>

record Network =
  newRequestFails :: "string \<Rightarrow> bool"
  clientDo :: "Request \<Rightarrow> int option"

datatype ForwardError = CreateRequest | HttpRequest | UnexpectedStatus int

text \<open>The bytes of the arrow (U+2192) in the format string, as UTF-8.\<close>

definition arrow :: string where
  "arrow = [CHR 0xE2, CHR 0x86, CHR 0x92]"

definition relayPrefix :: "string \<Rightarrow> int \<Rightarrow> string" where
  "relayPrefix node hopCount = ''['' @ node @ arrow @ ''hop'' @ Itoa hopCount @ ''] ''"

text \<open>
  \<^verbatim>\<open>forwardRequest\<close> of examples/relay-node/main.go, lines 363-393. The result is the
  requests handed to the client, and the error returned. The status of the response is
  not looked at.
\<close>

definition forwardRequest :: "Network \<Rightarrow> string \<Rightarrow> HTTPRequestPayload \<Rightarrow> int \<Rightarrow> string \<Rightarrow> Request list \<times> ForwardError option" where
  "forwardRequest net hop payload hopCount node =
     (if newRequestFails net (hop @ req_Path payload) then ([], Some CreateRequest)
      else
        (let req = \<lparr>out_Method = ''POST'', out_URL = hop @ req_Path payload,
                    out_Header = (req_Headers payload)(''X-Hop-Count'' \<mapsto> Itoa hopCount,
                                                       ''X-Relay-Node'' \<mapsto> node),
                    out_Body = relayPrefix node hopCount @ req_Body payload\<rparr>
         in case clientDo net req of
              None \<Rightarrow> ([req], Some HttpRequest)
            | Some status \<Rightarrow> ([req], None)))"

text \<open>
  \<^verbatim>\<open>forwardRequest\<close> of the single-route relay node (src/unnamed/part_007, lines
  365-406), which also records the request id and the trail of visited nodes, and takes a
  status other than 200 for an error. \<^verbatim>\<open>Header.Set\<close> stores a value under the canonical
  form of its key: the literal \<^verbatim>\<open>X-Original-Request-ID\<close> of line 381 is stored as
  \<open>X-Original-Request-Id\<close>, over a header of that name copied from the payload; the other
  three literals are canonical as written.
\<close>

definition forwardRequest_part007 :: "Network \<Rightarrow> string \<Rightarrow> HTTPRequestPayload \<Rightarrow> int \<Rightarrow> string \<Rightarrow> Request list \<times> ForwardError option" where
  "forwardRequest_part007 net hop payload hopCount node =
     (if newRequestFails net (hop @ req_Path payload) then ([], Some CreateRequest)
      else
        (let visitedNodes = (case req_Headers payload ''X-Visited-Nodes'' of None \<Rightarrow> [] | Some v \<Rightarrow> v);
             req = \<lparr>out_Method = ''POST'', out_URL = hop @ req_Path payload,
                    out_Header = (req_Headers payload)(''X-Hop-Count'' \<mapsto> Itoa hopCount,
                       ''X-Relay-Node'' \<mapsto> node,
                       ''X-Original-Request-Id'' \<mapsto> req_RequestID payload,
                       ''X-Visited-Nodes'' \<mapsto>
                          (if visitedNodes = [] then node else visitedNodes @ '','' @ node)),
                    out_Body = relayPrefix node hopCount @ req_Body payload\<rparr>
         in case clientDo net req of
              None \<Rightarrow> ([req], Some HttpRequest)
            | Some status \<Rightarrow>
                if status \<noteq> 200 then ([req], Some (UnexpectedStatus status)) else ([req], None)))"

text \<open>
  The goroutine of lines 281-293, started by \<^verbatim>\<open>processEvent\<close> for a \<open>Forward\<close>
  action: one call of \<^verbatim>\<open>forwardRequest\<close> to the route's next hop, then the error or
  the forwarded counter.
\<close>

definition forwardGoroutine :: "Network \<Rightarrow> RelayConfig \<Rightarrow> adapterRoute \<Rightarrow> HTTPRequestPayload \<Rightarrow> int \<Rightarrow> RelayState \<Rightarrow> RelayState \<times> Request list" where
  "forwardGoroutine net cfg r p hc st =
     (case forwardRequest net (nextHop r) p hc (nodeName cfg) of
        (sent, Some err) \<Rightarrow> (bump incErrors r st, sent)
      | (sent, None) \<Rightarrow> (bump incForwarded r st, sent))"

text \<open>
  Running the goroutines that a list of actions starts, one after the other: the counters
  they leave and the requests they hand to the client.
\<close>

fun runForwards :: "Network \<Rightarrow> RelayConfig \<Rightarrow> Action list \<Rightarrow> RelayState \<Rightarrow> RelayState \<times> Request list" where
  "runForwards net cfg [] st = (st, [])"
| "runForwards net cfg (Forward r p hc # as) st =
     (case forwardGoroutine net cfg r p hc st of
        (st1, sent) \<Rightarrow>
          (case runForwards net cfg as st1 of (st2, sent') \<Rightarrow> (st2, sent @ sent')))"
| "runForwards net cfg (Publish e # as) st = runForwards net cfg as st"

section \<open>The HTTP server adapter (pkg/http/server.go) and the emitter\<close>

text \<open>
  The \<^verbatim>\<open>http.ResponseWriter\<close> of a connection: its header map, the calls made on it
  (in order), and the error its \<^verbatim>\<open>Write\<close> returns (\<open>None\<close> when it succeeds).
\<close>

datatype WCall = WriteHeader int | Write string

record ResponseWriter =
  Header :: "string \<rightharpoonup> string"
  calls :: "WCall list"
  writeError :: "string option"

text \<open>\<^verbatim>\<open>http.Error\<close> of the standard library.\<close>

definition http_Error :: "string \<Rightarrow> int \<Rightarrow> ResponseWriter \<Rightarrow> ResponseWriter" where
  "http_Error msg code wr =
     wr\<lparr>Header := ((Header wr)(''Content-Length'' := None))
                      (''Content-Type'' \<mapsto> ''text/plain; charset=utf-8'',
                       ''X-Content-Type-Options'' \<mapsto> ''nosniff''),
        calls := calls wr @ [WriteHeader code, Write (msg @ [CHR 0x0A])]\<rparr>"

text \<open>
  The pending-response handle. \<open>rw_w\<close> is the address of the connection's writer, which
  \<^verbatim>\<open>handleRequest\<close> holds too (\<^verbatim>\<open>w\<close>); \<open>rw_done\<close> says that the channel is closed,
  \<open>rw_mu\<close> that the mutex is held.
\<close>

record responseWriter =
  rw_w :: nat
  rw_requestID :: string
  rw_written :: bool
  rw_done :: bool
  rw_mu :: bool

datatype RegOp = Store string | Delete string

text \<open>
  The shared state: the writers and the handles by address, the registry
  \<^verbatim>\<open>globalResponseWriters\<close> from request id to handle address, the calls made on the
  registry, and the events handed to \<^verbatim>\<open>bus.Publish\<close>.
\<close>

record ServerState =
  conns :: "nat \<Rightarrow> ResponseWriter"
  handles :: "nat \<Rightarrow> responseWriter"
  nextHandle :: nat
  globalResponseWriters :: "string \<rightharpoonup> nat"
  regOps :: "RegOp list"
  publishCalls :: "HTTPRequestPayload Event list"

record ServerAdapter =
  adapter_id :: string
  adapter_addr :: string

definition NewServerAdapter :: "string \<Rightarrow> ServerAdapter" where
  "NewServerAdapter a = \<lparr>adapter_id = ''http-server-'' @ a, adapter_addr = a\<rparr>"

text \<open>The inbound \<^verbatim>\<open>http.Request\<close>; \<open>r_Body\<close> is the result of \<^verbatim>\<open>io.ReadAll\<close>.\<close>

record HttpRequest =
  r_Method :: string
  r_Path :: string
  r_Query :: "string \<rightharpoonup> string list"
  r_Header :: "string \<rightharpoonup> string list"
  r_Body :: "string option"
  r_RemoteAddr :: string
  r_TLS :: bool

text \<open>What the environment decides for one request: the UUID, and whether
  \<^verbatim>\<open>event.NewEvent\<close> and \<^verbatim>\<open>bus.Publish\<close> return an error.\<close>

record IngressEnv =
  env_uuid :: string
  env_newEventFails :: bool
  env_publishFails :: bool

definition firstValues :: "(string \<rightharpoonup> string list) \<Rightarrow> (string \<rightharpoonup> string)" where
  "firstValues m = (\<lambda>k. case m k of None \<Rightarrow> None | Some [] \<Rightarrow> None | Some (v # vs) \<Rightarrow> Some v)"

definition onConn :: "nat \<Rightarrow> (ResponseWriter \<Rightarrow> ResponseWriter) \<Rightarrow> ServerState \<Rightarrow> ServerState" where
  "onConn w f s = s\<lparr>conns := (conns s)(w := f (conns s w))\<rparr>"

definition registryStore :: "string \<Rightarrow> nat \<Rightarrow> ServerState \<Rightarrow> ServerState" where
  "registryStore k rw s =
     s\<lparr>globalResponseWriters := (globalResponseWriters s)(k \<mapsto> rw),
       regOps := regOps s @ [Store k]\<rparr>"

definition registryDelete :: "string \<Rightarrow> ServerState \<Rightarrow> ServerState" where
  "registryDelete k s =
     s\<lparr>globalResponseWriters := (globalResponseWriters s)(k := None),
       regOps := regOps s @ [Delete k]\<rparr>"

datatype Outcome = Returned | Waiting nat

text \<open>
  \<^verbatim>\<open>handleRequest\<close>, lines 98-169: up to the \<^verbatim>\<open>select\<close>. \<open>w\<close> is the address of the
  connection's writer. The result says whether the handler has returned or waits on
  the handle at the given address.
\<close>

definition handleRequest_ingress :: "ServerAdapter \<Rightarrow> IngressEnv \<Rightarrow> nat \<Rightarrow> HttpRequest \<Rightarrow> ServerState \<Rightarrow> ServerState \<times> Outcome" where
  "handleRequest_ingress a env w r s =
     (case r_Body r of
        None \<Rightarrow> (onConn w (http_Error ''Failed to read request body'' 400) s, Returned)
      | Some body \<Rightarrow>
          (let requestID = env_uuid env;
               payload = \<lparr>req_RequestID = requestID, req_Method = r_Method r, req_Path = r_Path r,
                          req_Query = firstValues (r_Query r), req_Headers = firstValues (r_Header r),
                          req_Body = body, req_RemoteAddr = r_RemoteAddr r,
                          req_LocalAddr = adapter_addr a, req_TLS = r_TLS r\<rparr>
           in if env_newEventFails env
              then (onConn w (http_Error ''Failed to create event'' 500) s, Returned)
              else
                (let evt = WithMetadata ''request_id'' requestID
                             (WithMetadata ''adapter_id'' (adapter_id a)
                                (NewEvent ''net.http.request'' (adapter_id a) payload));
                     rw = nextHandle s;
                     s1 = s\<lparr>handles := (handles s)(rw := \<lparr>rw_w = w, rw_requestID = requestID,
                                                            rw_written = False, rw_done = False,
                                                            rw_mu = False\<rparr>),
                             nextHandle := Suc rw\<rparr>;
                     s2 = registryStore requestID rw s1;
                     s3 = s2\<lparr>publishCalls := publishCalls s2 @ [evt]\<rparr>
                 in if env_publishFails env
                    then (onConn w (http_Error ''Failed to process request'' 500)
                            (registryDelete requestID s3), Returned)
                    else (s3, Waiting rw))))"

text \<open>
  Lines 171-183: the \<^verbatim>\<open>select\<close> and what follows it, one step for each statement that
  touches shared state, since the handler takes no lock there and other goroutines run
  between its statements. \<open>HandlerPC\<close> says where the handler is after a step: about to
  read \<^verbatim>\<open>rw.written\<close> (line 179), about to call \<^verbatim>\<open>w.WriteHeader\<close> (line 180), about to
  call \<^verbatim>\<open>w.Write\<close> (line 181), or returned.
\<close>

datatype SelectCase = CaseDone | CaseTimeout

datatype HandlerPC = ReadWritten nat | CallWriteHeader nat | CallWrite nat | HandlerReturned

definition responseTimeout :: nat where
  "responseTimeout = 30"

text \<open>
  Taking a case of the \<^verbatim>\<open>select\<close> and the \<^verbatim>\<open>Delete\<close> that follows it (lines 175 and
  178); taking the case changes nothing shared, so the two are one step. A case can be
  taken when it is ready: the first when the channel is closed, the second when the 30
  seconds of \<^verbatim>\<open>time.After\<close> have passed (\<open>elapsed\<close>, in seconds). \<open>None\<close>: the chosen
  case is not ready and the handler stays blocked.
\<close>

definition handleRequest_select :: "SelectCase \<Rightarrow> nat \<Rightarrow> nat \<Rightarrow> ServerState \<Rightarrow> (ServerState \<times> HandlerPC) option" where
  "handleRequest_select c elapsed rw s =
     (let requestID = rw_requestID (handles s rw)
      in case c of
           CaseDone \<Rightarrow>
             if rw_done (handles s rw)
             then Some (registryDelete requestID s, HandlerReturned) else None
         | CaseTimeout \<Rightarrow>
             if responseTimeout \<le> elapsed
             then Some (registryDelete requestID s, ReadWritten rw) else None)"

text \<open>Lines 179-182, a statement at a time.\<close>

fun handleRequest_timeout :: "HandlerPC \<Rightarrow> ServerState \<Rightarrow> ServerState \<times> HandlerPC" where
  "handleRequest_timeout (ReadWritten rw) s =
     (if \<not> rw_written (handles s rw) then (s, CallWriteHeader rw) else (s, HandlerReturned))"
| "handleRequest_timeout (CallWriteHeader rw) s =
     (onConn (rw_w (handles s rw)) (\<lambda>wr. wr\<lparr>calls := calls wr @ [WriteHeader 200]\<rparr>) s,
      CallWrite rw)"
| "handleRequest_timeout (CallWrite rw) s =
     (onConn (rw_w (handles s rw))
        (\<lambda>wr. wr\<lparr>calls := calls wr @ [Write ''Request processed'']\<rparr>) s,
      HandlerReturned)"
| "handleRequest_timeout HandlerReturned s = (s, HandlerReturned)"

fun timeoutRun :: "nat \<Rightarrow> HandlerPC \<Rightarrow> ServerState \<Rightarrow> ServerState \<times> HandlerPC" where
  "timeoutRun 0 pc s = (s, pc)"
| "timeoutRun (Suc n) pc s =
     (case handleRequest_timeout pc s of (s', pc') \<Rightarrow> timeoutRun n pc' s')"


datatype EmitError =
    DecodeFailed
  | NoResponseWriter string
  | ResponseAlreadyWritten
  | WriteFailed string
  | InvalidWriteHeaderCode int

text \<open>
  The texts of the errors. A decode error wraps the codec's own error, of which only the
  prefix is the repository's; a failed write returns the writer's error as it is; the
  last one is the panic of \<^verbatim>\<open>net/http\<close> for a status code that has not three digits.
\<close>

fun errorText :: "EmitError \<Rightarrow> string" where
  "errorText DecodeFailed = ''failed to decode payload: ''"
| "errorText (NoResponseWriter k) = ''no response writer found for request ID '' @ k"
| "errorText ResponseAlreadyWritten = ''response already written''"
| "errorText (WriteFailed e) = e"
| "errorText (InvalidWriteHeaderCode c) = ''invalid WriteHeader code '' @ Itoa c"

definition onHandle :: "nat \<Rightarrow> (responseWriter \<Rightarrow> responseWriter) \<Rightarrow> ServerState \<Rightarrow> ServerState" where
  "onHandle rw f s = s\<lparr>handles := (handles s)(rw := f (handles s rw))\<rparr>"

text \<open>
  \<^verbatim>\<open>responseWriter.WriteResponse\<close>, lines 196-223, on the handle at address \<open>rw\<close>, a
  statement at a time; \<open>WriterPC\<close> says where the call is.
  \<^item> \<open>WEnter\<close>: \<^verbatim>\<open>Lock\<close> and the test of \<^verbatim>\<open>rw.written\<close> (197-202). The call is blocked
    (\<open>None\<close>) while another call holds the mutex. Only a holder of the mutex writes the
    flag, so the test is one step with the lock; a rejected call gives the mutex back at
    once.
  \<^item> \<open>WSetHeaders\<close>: the loop of 205-207, which only this call runs on the header map.
    Header keys are taken in the canonical form that \<^verbatim>\<open>Header().Set\<close> gives them.
  \<^item> \<open>WWriteHeader\<close>: line 210. On a writer nothing was written to, \<^verbatim>\<open>net/http\<close>
    panics for a status code outside 100..999; the deferred \<^verbatim>\<open>Unlock\<close> runs.
  \<^item> \<open>WWriteBody\<close>: lines 213-218, with the early return on a write error.
  \<^item> \<open>WSetWritten\<close>: line 220. \<open>WCloseDone\<close>: line 221, the \<^verbatim>\<open>Unlock\<close> and the return.
  The calls on the writer are recorded as made.
\<close>

datatype WriterPC =
    WEnter | WSetHeaders | WWriteHeader | WWriteBody | WSetWritten | WCloseDone
  | WReturned "EmitError option"

fun writerStep :: "nat \<Rightarrow> int \<Rightarrow> (string \<rightharpoonup> string) \<Rightarrow> string \<Rightarrow> WriterPC \<Rightarrow> ServerState \<Rightarrow> (ServerState \<times> WriterPC) option" where
  "writerStep rw statusCode headers body WEnter s =
     (if rw_mu (handles s rw) then None
      else if rw_written (handles s rw) then Some (s, WReturned (Some ResponseAlreadyWritten))
      else Some (onHandle rw (\<lambda>h. h\<lparr>rw_mu := True\<rparr>) s, WSetHeaders))"
| "writerStep rw statusCode headers body WSetHeaders s =
     Some (onConn (rw_w (handles s rw)) (\<lambda>wr. wr\<lparr>Header := Header wr ++ headers\<rparr>) s,
           WWriteHeader)"
| "writerStep rw statusCode headers body WWriteHeader s =
     (if calls (conns s (rw_w (handles s rw))) = [] \<and> (statusCode < 100 \<or> 999 < statusCode)
      then Some (onHandle rw (\<lambda>h. h\<lparr>rw_mu := False\<rparr>) s,
                 WReturned (Some (InvalidWriteHeaderCode statusCode)))
      else Some (onConn (rw_w (handles s rw))
                   (\<lambda>wr. wr\<lparr>calls := calls wr @ [WriteHeader statusCode]\<rparr>) s,
                 if body \<noteq> [] then WWriteBody else WSetWritten))"
| "writerStep rw statusCode headers body WWriteBody s =
     (let s1 = onConn (rw_w (handles s rw)) (\<lambda>wr. wr\<lparr>calls := calls wr @ [Write body]\<rparr>) s
      in case writeError (conns s (rw_w (handles s rw))) of
           Some e \<Rightarrow> Some (onHandle rw (\<lambda>h. h\<lparr>rw_mu := False\<rparr>) s1, WReturned (Some (WriteFailed e)))
         | None \<Rightarrow> Some (s1, WSetWritten))"
| "writerStep rw statusCode headers body WSetWritten s =
     Some (onHandle rw (\<lambda>h. h\<lparr>rw_written := True\<rparr>) s, WCloseDone)"
| "writerStep rw statusCode headers body WCloseDone s =
     Some (onHandle rw (\<lambda>h. h\<lparr>rw_done := True, rw_mu := False\<rparr>) s, WReturned None)"
| "writerStep rw statusCode headers body (WReturned e) s = Some (s, WReturned e)"

fun writerRun :: "nat \<Rightarrow> nat \<Rightarrow> int \<Rightarrow> (string \<rightharpoonup> string) \<Rightarrow> string \<Rightarrow> WriterPC \<Rightarrow> ServerState \<Rightarrow> (ServerState \<times> WriterPC) option" where
  "writerRun 0 rw statusCode headers body pc s = Some (s, pc)"
| "writerRun (Suc n) rw statusCode headers body pc s =
     (case writerStep rw statusCode headers body pc s of
        None \<Rightarrow> None
      | Some (s', pc') \<Rightarrow> writerRun n rw statusCode headers body pc' s')"

text \<open>
  A whole call of \<^verbatim>\<open>WriteResponse\<close> with no other goroutine running in between: its six
  statements at most. The result is the error (\<open>None\<close> is nil) and the new state, or
  \<open>None\<close> when the call cannot start because the mutex is held.
\<close>

definition WriteResponse :: "nat \<Rightarrow> int \<Rightarrow> (string \<rightharpoonup> string) \<Rightarrow> string \<Rightarrow> ServerState \<Rightarrow> (EmitError option \<times> ServerState) option" where
  "WriteResponse rw statusCode headers body s =
     (case writerRun (Suc (Suc (Suc (Suc (Suc (Suc 0)))))) rw statusCode headers body WEnter s of
        None \<Rightarrow> None
      | Some (s', pc) \<Rightarrow> (case pc of WReturned e \<Rightarrow> Some (e, s') | _ \<Rightarrow> None))"

definition GetResponseWriter :: "string \<Rightarrow> ServerState \<Rightarrow> nat option" where
  "GetResponseWriter requestID s = globalResponseWriters s requestID"

text \<open>
  \<^verbatim>\<open>ClientEmitter.Emit\<close> (src/unnamed/part_002, lines 141-157), the lookup and the call
  of \<^verbatim>\<open>WriteResponse\<close> with nothing in between.
\<close>

definition Emit :: "HTTPResponsePayload Event \<Rightarrow> ServerState \<Rightarrow> (EmitError option \<times> ServerState) option" where
  "Emit evt s =
     (case ev_DecodePayload evt of
        None \<Rightarrow> Some (Some DecodeFailed, s)
      | Some payload \<Rightarrow>
          (case GetResponseWriter (resp_RequestID payload) s of
             None \<Rightarrow> Some (Some (NoResponseWriter (resp_RequestID payload)), s)
           | Some rw \<Rightarrow>
               WriteResponse rw (resp_StatusCode payload) (resp_Headers payload)
                 (resp_Body payload) s))"

text \<open>
  One step of any goroutine of the listener: a request arrives and is handled up to the
  \<^verbatim>\<open>select\<close>, a handler takes a case, a handler runs one of the statements after the
  timeout, a call of \<^verbatim>\<open>WriteResponse\<close> runs one statement, a connection starts or stops
  failing. Every statement of every goroutine is a step; the relation does not track
  which goroutine is where, so it allows more than the program does.
\<close>

inductive step :: "ServerState \<Rightarrow> ServerState \<Rightarrow> bool" where
  arrives: "step s (fst (handleRequest_ingress ad env w r s))"
| selects: "handleRequest_select c elapsed rw s = Some (s', pc) \<Longrightarrow> step s s'"
| handler: "step s (fst (handleRequest_timeout pc s))"
| writer: "writerStep rw statusCode headers body pc s = Some (s', pc') \<Longrightarrow> step s s'"
| connection: "step s (onConn w (\<lambda>wr. wr\<lparr>writeError := err\<rparr>) s)"

text \<open>
  A call of \<^verbatim>\<open>WriteResponse\<close> as it really runs: its own statements in order, with
  any number of steps of other goroutines between them. \<open>callRun rw sc hs b pc s pc' s'\<close>:
  the call, at \<open>pc\<close> in state \<open>s\<close>, can get to \<open>pc'\<close> in state \<open>s'\<close>.
\<close>

inductive callRun :: "nat \<Rightarrow> int \<Rightarrow> (string \<rightharpoonup> string) \<Rightarrow> string \<Rightarrow> WriterPC \<Rightarrow> ServerState \<Rightarrow> WriterPC \<Rightarrow> ServerState \<Rightarrow> bool" where
  starts: "callRun rw sc hs b pc s pc s"
| own: "callRun rw sc hs b pc s pc1 s1 \<Longrightarrow> writerStep rw sc hs b pc1 s1 = Some (s2, pc2) \<Longrightarrow>
        callRun rw sc hs b pc s pc2 s2"
| others: "callRun rw sc hs b pc s pc1 s1 \<Longrightarrow> step s1 s2 \<Longrightarrow> callRun rw sc hs b pc s pc1 s2"

text \<open>
  A handle that has been made, on which a call of \<^verbatim>\<open>WriteResponse\<close> has returned nil:
  the flag is set, the channel closed, the mutex free.
\<close>

definition settled :: "nat \<Rightarrow> ServerState \<Rightarrow> bool" where
  "settled rw s =
     (rw < nextHandle s \<and> rw_written (handles s rw) \<and> rw_done (handles s rw) \<and>
      \<not> rw_mu (handles s rw))"

section \<open>Sample data\<close>

definition zeroStats :: AdapterStats where
  "zeroStats = \<lparr>received = 0, forwarded = 0, dropped = 0, errors = 0\<rparr>"

definition exRoute :: adapterRoute where
  "exRoute = \<lparr>route_id = ''http-server-:8080'', listenAddr = '':8080'',
              nextHop = ''http://node-c:8080'', stats = 0\<rparr>"

definition exConfig :: RelayConfig where
  "exConfig = \<lparr>adapterRoutes = [''http-server-:8080'' \<mapsto> exRoute], routesInOrder = [exRoute],
               maxHops = 10, nodeName = ''NodeB''\<rparr>"

definition exState :: RelayState where
  "exState = \<lparr>totalStats = zeroStats, statsHeap = (\<lambda>a. zeroStats)\<rparr>"

definition exPayload :: "(string \<rightharpoonup> string) \<Rightarrow> HTTPRequestPayload" where
  "exPayload hdrs =
     \<lparr>req_RequestID = ''req-1'', req_Method = ''GET'', req_Path = ''/api/test'',
      req_Query = Map.empty, req_Headers = hdrs, req_Body = ''hello'',
      req_RemoteAddr = ''10.0.0.7:51000'', req_LocalAddr = '':8080'', req_TLS = False\<rparr>"

definition exEvent :: "(string \<rightharpoonup> string) \<Rightarrow> HTTPRequestPayload Event" where
  "exEvent hdrs =
     WithMetadata ''request_id'' ''req-1''
       (WithMetadata ''adapter_id'' ''http-server-:8080''
          (NewEvent ''net.http.request'' ''http-server-:8080'' (exPayload hdrs)))"

definition exNet :: Network where
  "exNet = \<lparr>newRequestFails = (\<lambda>u. False), clientDo = (\<lambda>r. Some 200)\<rparr>"

text \<open>\<^verbatim>\<open>strings.Contains\<close>.\<close>

fun Contains :: "string \<Rightarrow> string \<Rightarrow> bool" where
  "Contains [] sub = (sub = [])"
| "Contains (c # cs) sub = (take (length sub) (c # cs) = sub \<or> Contains cs sub)"

text \<open>Readers for the actions of \<^verbatim>\<open>processEvent\<close> and for the requests sent.\<close>

fun publishedBody :: "Action \<Rightarrow> string option" where
  "publishedBody (Publish e) = map_option resp_Body (ev_DecodePayload e)"
| "publishedBody (Forward r p hc) = None"

definition publishedBodies :: "(RelayState \<times> Action list) option \<Rightarrow> string option list" where
  "publishedBodies res = (case res of None \<Rightarrow> [] | Some (st, acts) \<Rightarrow> map publishedBody acts)"

definition visitedTrail :: "Request \<Rightarrow> string option" where
  "visitedTrail req = out_Header req ''X-Visited-Nodes''"

definition callsOn :: "nat \<Rightarrow> ServerState \<Rightarrow> WCall list" where
  "callsOn w s = calls (conns s w)"

definition emptyWriter :: ResponseWriter where
  "emptyWriter = \<lparr>Header = Map.empty, calls = [], writeError = None\<rparr>"

definition initState :: ServerState where
  "initState =
     \<lparr>conns = (\<lambda>w. emptyWriter),
      handles = (\<lambda>a. \<lparr>rw_w = 0, rw_requestID = [], rw_written = False, rw_done = False,
                         rw_mu = False\<rparr>),
      nextHandle = 0, globalResponseWriters = Map.empty, regOps = [], publishCalls = []\<rparr>"

definition exRequest :: HttpRequest where
  "exRequest =
     \<lparr>r_Method = ''POST'', r_Path = ''/api/test'', r_Query = Map.empty,
      r_Header = [''Content-Type'' \<mapsto> [''text/plain'']], r_Body = Some ''hello'',
      r_RemoteAddr = ''10.0.0.7:51000'', r_TLS = False\<rparr>"

definition exEnv :: "bool \<Rightarrow> IngressEnv" where
  "exEnv publishFails = \<lparr>env_uuid = ''req-1'', env_newEventFails = False, env_publishFails = publishFails\<rparr>"

text \<open>
  Schedules for the request \<open>req-1\<close>, whose handle is at address 0. It is published and
  its handler waits (\<open>exWaiting\<close>).
\<close>

definition exWaiting :: ServerState where
  "exWaiting = fst (handleRequest_ingress (NewServerAdapter '':8080'') (exEnv False) 0 exRequest initState)"

definition stateOf :: "(ServerState \<times> 'a) option \<Rightarrow> ServerState" where
  "stateOf res = (case res of None \<Rightarrow> initState | Some (s, x) \<Rightarrow> s)"

definition resultState :: "('a \<times> ServerState) option \<Rightarrow> ServerState" where
  "resultState res = (case res of None \<Rightarrow> initState | Some (x, s) \<Rightarrow> s)"

definition resultError :: "(EmitError option \<times> ServerState) option \<Rightarrow> EmitError option option" where
  "resultError res = map_option fst res"

definition exResponseEvent :: "HTTPResponsePayload Event" where
  "exResponseEvent =
     WithMetadata ''request_id'' ''req-1''
       (NewEvent ''net.http.response'' ''http-echo''
          \<lparr>resp_RequestID = ''req-1'', resp_StatusCode = 200,
           resp_Headers = [''Content-Type'' \<mapsto> ''text/plain''], resp_Body = ''echo''\<rparr>)"

text \<open>
  First schedule: the timer fires, the handler takes the timeout case and reads the
  flag, which is not set (\<open>exRead\<close>); the emitter, which had looked the handle up
  before, now runs its whole call of \<^verbatim>\<open>WriteResponse\<close> (\<open>exRaceWrite\<close>); the handler goes
  on with the two calls of the fallback (\<open>exRaceEnd\<close>).
\<close>

definition exChosen :: ServerState where
  "exChosen = stateOf (handleRequest_select CaseTimeout 30 0 exWaiting)"

definition exRead :: "ServerState \<times> HandlerPC" where
  "exRead = handleRequest_timeout (ReadWritten 0) exChosen"

definition exRaceWrite :: "(EmitError option \<times> ServerState) option" where
  "exRaceWrite = WriteResponse 0 200 [''Content-Type'' \<mapsto> ''text/plain''] ''echo'' (fst exRead)"

definition exRaceEnd :: "ServerState \<times> HandlerPC" where
  "exRaceEnd = timeoutRun (Suc (Suc 0)) (snd exRead) (resultState exRaceWrite)"

text \<open>
  Second schedule: the response event is emitted while the handler waits
  (\<open>exResolved\<close>), the handler takes the first case of the \<^verbatim>\<open>select\<close> and returns
  (\<open>exFinished\<close>), and then the same event is emitted once more (\<open>exRedelivered\<close>).
\<close>

definition exResolved :: "(EmitError option \<times> ServerState) option" where
  "exResolved = Emit exResponseEvent exWaiting"

definition exFinished :: ServerState where
  "exFinished = stateOf (handleRequest_select CaseDone 0 0 (resultState exResolved))"

definition exRedelivered :: "(EmitError option \<times> ServerState) option" where
  "exRedelivered = Emit exResponseEvent exFinished"



section \<open>Facts about the library functions and the sample data\<close>

lemma resolveRoute_Some: "routesInOrder cfg \<noteq> [] \<Longrightarrow> \<exists>r. resolveRoute cfg evt = Some r"
  by (auto simp: resolveRoute_def Let_def split: option.splits list.splits)

lemma forwardCalls_simps [simp]:
  "forwardCalls [] = 0"
  "forwardCalls (Forward r p hc # as) = Suc (forwardCalls as)"
  "forwardCalls (Publish e # as) = forwardCalls as"
  by (simp_all add: forwardCalls_def)

lemma exEvent_decode [simp]: "ev_DecodePayload (exEvent hdrs) = Some (exPayload hdrs)"
  by (simp add: exEvent_def WithMetadata_def NewEvent_def)

lemma exPayload_headers [simp]: "req_Headers (exPayload hdrs) = hdrs"
  by (simp add: exPayload_def)

lemma exConfig_simps [simp]:
  "routesInOrder exConfig = [exRoute]" "maxHops exConfig = 10" "nodeName exConfig = ''NodeB''"
  by (simp_all add: exConfig_def)

lemma exEvent_route [simp]: "resolveRoute exConfig (exEvent hdrs) = Some exRoute"
  by (simp add: resolveRoute_def exEvent_def exConfig_def WithMetadata_def NewEvent_def)

lemma hop_absent [simp]: "hopCountOf Map.empty = 1"
  by (simp add: hopCountOf_def)

lemma hop_ten [simp]: "hopCountOf [''X-Hop-Count'' \<mapsto> ''10''] = 11"
  by (simp add: hopCountOf_def Atoi_def isDigit_def digitVal_def wrap64_def)

lemma Atoi_abc [simp]: "Atoi ''abc'' = None"
  by (simp add: Atoi_def isDigit_def)

lemma bump_dropped:
  "dropped (statsHeap (bump incDropped r (bump incReceived r st)) (stats r)) =
     dropped (statsHeap st (stats r)) + 1"
  "dropped (totalStats (bump incDropped r (bump incReceived r st))) = dropped (totalStats st) + 1"
  by (simp_all add: bump_def incDropped_def incReceived_def)

lemma dropResponse_payload:
  "ev_DecodePayload (dropResponse cfg p) =
     Some \<lparr>resp_RequestID = req_RequestID p, resp_StatusCode = 200,
           resp_Headers = [''Content-Type'' \<mapsto> ''text/plain''],
           resp_Body = ''Max hops reached at '' @ nodeName cfg\<rparr>"
  by (simp add: dropResponse_def WithMetadata_def NewEvent_def)

lemma ackResponse_status:
  "map_option resp_StatusCode (ev_DecodePayload (ackResponse cfg p hc)) = Some 200"
  by (simp add: ackResponse_def WithMetadata_def NewEvent_def)

section \<open>The hop limit of the relay router\<close>

lemma forwardGoroutine_eq:
  "forwardGoroutine net cfg r p hc st =
     (bump (if snd (forwardRequest net (nextHop r) p hc (nodeName cfg)) = None
            then incForwarded else incErrors) r st,
      fst (forwardRequest net (nextHop r) p hc (nodeName cfg)))"
  by (simp add: forwardGoroutine_def split: prod.splits option.splits)

lemma exNet_simps [simp]: "newRequestFails exNet u = False" "clientDo exNet q = Some 200"
  by (simp_all add: exNet_def)

text \<open>
  C1. For every event that \<^verbatim>\<open>processEvent\<close> decodes, with a route list that is not
  empty (\<^verbatim>\<open>main\<close> stops otherwise): the call returns; when the computed hop count is
  greater than \<open>maxHops\<close> it starts no forwarding goroutine, and otherwise exactly one,
  for the event's route, payload and hop count. That goroutine makes one call of
  \<^verbatim>\<open>forwardRequest\<close> to the route's next hop: it hands to the client what that call hands
  to it and counts its result. So the requests sent for the event are none in the first
  case and those of one call of \<^verbatim>\<open>forwardRequest\<close> in the second.
\<close>

theorem processEvent_forward_calls:
  assumes "routesInOrder cfg \<noteq> []" and "ev_DecodePayload evt = Some p"
  shows "\<exists>r st' acts. resolveRoute cfg evt = Some r \<and>
           processEvent cfg nf st evt = Some (st', acts) \<and>
           forwardCalls acts = (if hopCountOf (req_Headers p) > maxHops cfg then 0 else 1) \<and>
           filter isForward acts =
             (if hopCountOf (req_Headers p) > maxHops cfg then []
              else [Forward r p (hopCountOf (req_Headers p))]) \<and>
           forwardGoroutine net cfg r p (hopCountOf (req_Headers p)) st' =
             (bump (if snd (forwardRequest net (nextHop r) p (hopCountOf (req_Headers p))
                              (nodeName cfg)) = None
                    then incForwarded else incErrors) r st',
              fst (forwardRequest net (nextHop r) p (hopCountOf (req_Headers p)) (nodeName cfg))) \<and>
           snd (runForwards net cfg acts st') =
             (if hopCountOf (req_Headers p) > maxHops cfg then []
              else fst (forwardRequest net (nextHop r) p (hopCountOf (req_Headers p))
                          (nodeName cfg)))"
proof -
  from assms(1) obtain r where r: "resolveRoute cfg evt = Some r"
    using resolveRoute_Some by blast
  show ?thesis
  proof (cases "hopCountOf (req_Headers p) > maxHops cfg")
    case True
    with r assms(2) show ?thesis
      by (simp add: processEvent_def Let_def forwardGoroutine_eq)
  next
    case False
    with r assms(2) show ?thesis
      by (cases nf) (simp_all add: processEvent_def Let_def forwardGoroutine_eq)
  qed
qed

theorem processEvent_forward_calls_witness:
  "routesInOrder exConfig \<noteq> [] \<and>
   (\<exists>st' acts. processEvent exConfig False exState (exEvent Map.empty) = Some (st', acts) \<and>
       forwardCalls acts = 1 \<and> length (snd (runForwards exNet exConfig acts st')) = 1) \<and>
   (\<exists>st' acts. processEvent exConfig False exState (exEvent [''X-Hop-Count'' \<mapsto> ''10'']) =
         Some (st', acts) \<and> forwardCalls acts = 0 \<and>
       snd (runForwards exNet exConfig acts st') = [])"
proof -
  have h: "routesInOrder exConfig \<noteq> []" by simp
  have l: "length (fst (forwardRequest exNet (nextHop exRoute) (exPayload Map.empty) 1
      (nodeName exConfig))) = 1"
    by (simp add: forwardRequest_def Let_def)
  from processEvent_forward_calls [OF h exEvent_decode [of Map.empty],
        where nf = False and st = exState and net = exNet]
  have a: "\<exists>st' acts. processEvent exConfig False exState (exEvent Map.empty) = Some (st', acts) \<and>
       forwardCalls acts = 1 \<and> length (snd (runForwards exNet exConfig acts st')) = 1"
    using l by auto
  from processEvent_forward_calls [OF h exEvent_decode [of "[''X-Hop-Count'' \<mapsto> ''10'']"],
        where nf = False and st = exState and net = exNet]
  have b: "\<exists>st' acts. processEvent exConfig False exState
        (exEvent [''X-Hop-Count'' \<mapsto> ''10'']) = Some (st', acts) \<and>
       forwardCalls acts = 0 \<and> snd (runForwards exNet exConfig acts st') = []"
    by auto
  from h a b show ?thesis by blast
qed

text \<open>
  C6, as the code has it. For every event whose computed hop count exceeds \<open>maxHops\<close>,
  the router adds exactly one to the dropped counter of the event's route (and of the
  totals), publishes one local response, whose body is \<open>Max hops reached at\<close> followed
  by the node's name, and starts no forward.
\<close>

theorem processEvent_drop:
  assumes "resolveRoute cfg evt = Some r" and "ev_DecodePayload evt = Some p"
    and "hopCountOf (req_Headers p) > maxHops cfg"
  shows "\<exists>st'. processEvent cfg nf st evt = Some (st', [Publish (dropResponse cfg p)]) \<and>
           dropped (statsHeap st' (stats r)) = dropped (statsHeap st (stats r)) + 1 \<and>
           dropped (totalStats st') = dropped (totalStats st) + 1 \<and>
           publishedBody (Publish (dropResponse cfg p)) =
             Some (''Max hops reached at '' @ nodeName cfg) \<and>
           forwardCalls [Publish (dropResponse cfg p)] = 0"
  using assms by (simp add: processEvent_def Let_def bump_dropped dropResponse_payload)

theorem processEvent_drop_witness:
  "resolveRoute exConfig (exEvent [''X-Hop-Count'' \<mapsto> ''10'']) = Some exRoute \<and>
   hopCountOf (req_Headers (exPayload [''X-Hop-Count'' \<mapsto> ''10''])) > maxHops exConfig \<and>
   (\<exists>st'. processEvent exConfig False exState (exEvent [''X-Hop-Count'' \<mapsto> ''10'']) =
            Some (st', [Publish (dropResponse exConfig (exPayload [''X-Hop-Count'' \<mapsto> ''10'']))]) \<and>
          dropped (statsHeap st' 0) = 1)"
proof -
  have h1: "resolveRoute exConfig (exEvent [''X-Hop-Count'' \<mapsto> ''10'']) = Some exRoute"
    by simp
  have h3: "hopCountOf (req_Headers (exPayload [''X-Hop-Count'' \<mapsto> ''10''])) > maxHops exConfig"
    by simp
  have z: "stats exRoute = 0" "dropped (statsHeap exState 0) = 0"
    by (simp_all add: exRoute_def exState_def zeroStats_def)
  from processEvent_drop [OF h1 exEvent_decode h3, where nf = False and st = exState]
  show ?thesis using h1 h3 z by auto
qed

text \<open>
  The body of the response that node \<open>NodeB\<close> publishes for a request arriving with hop
  count 10 at \<open>maxHops = 10\<close>: it does not say \<open>exceeded\<close>.
\<close>

theorem processEvent_drop_body_counterexample:
  "publishedBodies (processEvent exConfig False exState (exEvent [''X-Hop-Count'' \<mapsto> ''10''])) =
     [Some ''Max hops reached at NodeB''] \<and>
   \<not> Contains ''Max hops reached at NodeB'' ''exceeded''"
  by (simp add: processEvent_def Let_def publishedBodies_def dropResponse_payload)

text \<open>
  C9. The response published for a dropped request has status code 200 and the single
  header \<open>Content-Type: text/plain\<close>; the acknowledgement of a relayed request has status
  code 200 as well, so the status code does not tell the two apart.
\<close>

theorem drop_response_status:
  assumes "resolveRoute cfg evt = Some r" and "ev_DecodePayload evt = Some p"
    and "hopCountOf (req_Headers p) > maxHops cfg"
  shows "map_option snd (processEvent cfg nf st evt) = Some [Publish (dropResponse cfg p)] \<and>
         map_option resp_StatusCode (ev_DecodePayload (dropResponse cfg p)) = Some 200 \<and>
         map_option resp_Headers (ev_DecodePayload (dropResponse cfg p)) =
           Some [''Content-Type'' \<mapsto> ''text/plain''] \<and>
         map_option resp_StatusCode (ev_DecodePayload (ackResponse cfg p' hc)) = Some 200"
  using assms by (simp add: processEvent_def Let_def dropResponse_payload ackResponse_status)

theorem drop_response_status_witness:
  "resolveRoute exConfig (exEvent [''X-Hop-Count'' \<mapsto> ''10'']) = Some exRoute \<and>
   hopCountOf (req_Headers (exPayload [''X-Hop-Count'' \<mapsto> ''10''])) > maxHops exConfig \<and>
   map_option resp_StatusCode
     (ev_DecodePayload (dropResponse exConfig (exPayload [''X-Hop-Count'' \<mapsto> ''10'']))) = Some 200"
proof -
  have h1: "resolveRoute exConfig (exEvent [''X-Hop-Count'' \<mapsto> ''10'']) = Some exRoute"
    by simp
  have h3: "hopCountOf (req_Headers (exPayload [''X-Hop-Count'' \<mapsto> ''10''])) > maxHops exConfig"
    by simp
  from drop_response_status [OF h1 exEvent_decode h3]
  show ?thesis using h1 h3 by simp
qed

text \<open>
  C10. When the \<open>X-Hop-Count\<close> header of the payload is absent, or present and not
  accepted by \<^verbatim>\<open>strconv.Atoi\<close>, the hop count is 1; the event is not rejected: with
  \<open>maxHops\<close> at least 1 it is forwarded and acknowledged as hop 1, and only the received
  counters change.
\<close>

theorem hop_header_absent_or_malformed:
  assumes "resolveRoute cfg evt = Some r" and "ev_DecodePayload evt = Some p"
    and "req_Headers p ''X-Hop-Count'' = None \<or>
         (\<exists>s. req_Headers p ''X-Hop-Count'' = Some s \<and> Atoi s = None)"
    and "1 \<le> maxHops cfg"
  shows "hopCountOf (req_Headers p) = 1 \<and>
         processEvent cfg False st evt =
           Some (bump incReceived r st, [Forward r p 1, Publish (ackResponse cfg p 1)])"
proof -
  from assms(3) have "hopCountOf (req_Headers p) = 1"
    by (auto simp: hopCountOf_def)
  with assms(1,2,4) show ?thesis
    by (simp add: processEvent_def Let_def)
qed

theorem hop_header_absent_or_malformed_witness:
  "resolveRoute exConfig (exEvent [''X-Hop-Count'' \<mapsto> ''abc'']) = Some exRoute \<and>
   req_Headers (exPayload [''X-Hop-Count'' \<mapsto> ''abc'']) ''X-Hop-Count'' = Some ''abc'' \<and>
   Atoi ''abc'' = None \<and> 1 \<le> maxHops exConfig \<and>
   hopCountOf (req_Headers (exPayload [''X-Hop-Count'' \<mapsto> ''abc''])) = 1"
proof -
  have h1: "resolveRoute exConfig (exEvent [''X-Hop-Count'' \<mapsto> ''abc'']) = Some exRoute"
    by simp
  have h3: "req_Headers (exPayload [''X-Hop-Count'' \<mapsto> ''abc'']) ''X-Hop-Count'' = None \<or>
      (\<exists>s. req_Headers (exPayload [''X-Hop-Count'' \<mapsto> ''abc'']) ''X-Hop-Count'' = Some s \<and>
           Atoi s = None)"
    by simp
  have h4: "1 \<le> maxHops exConfig" by simp
  from hop_header_absent_or_malformed [OF h1 exEvent_decode h3 h4]
  show ?thesis using h1 h4 by simp
qed

section \<open>The forwarded request\<close>

lemma processEvent_Forward:
  assumes "processEvent cfg nf st evt = Some (st', acts)" and "Forward r p hc \<in> set acts"
  shows "resolveRoute cfg evt = Some r \<and> ev_DecodePayload evt = Some p \<and>
         hc = hopCountOf (req_Headers p)"
  using assms
  by (auto simp: processEvent_def Let_def split: option.splits if_splits)

lemma hop_accept [simp]: "hopCountOf [''Accept'' \<mapsto> ''text/plain''] = 1"
  by (simp add: hopCountOf_def)

lemma exProcess:
  "processEvent exConfig False exState (exEvent [''Accept'' \<mapsto> ''text/plain'']) =
     Some (bump incReceived exRoute exState,
           [Forward exRoute (exPayload [''Accept'' \<mapsto> ''text/plain'']) 1,
            Publish (ackResponse exConfig (exPayload [''Accept'' \<mapsto> ''text/plain'']) 1)])"
  by (simp add: processEvent_def Let_def)

lemma forwardRequest_sent:
  "\<not> newRequestFails net (hop @ req_Path p) \<Longrightarrow>
   fst (forwardRequest net hop p hc node) =
     [\<lparr>out_Method = ''POST'', out_URL = hop @ req_Path p,
       out_Header = (req_Headers p)(''X-Hop-Count'' \<mapsto> Itoa hc, ''X-Relay-Node'' \<mapsto> node),
       out_Body = relayPrefix node hc @ req_Body p\<rparr>]"
  by (simp add: forwardRequest_def Let_def split: option.splits)

lemma forwardRequest_part007_sent:
  "\<not> newRequestFails net (hop @ req_Path p) \<Longrightarrow>
   fst (forwardRequest_part007 net hop p hc node) =
     [\<lparr>out_Method = ''POST'', out_URL = hop @ req_Path p,
       out_Header = (req_Headers p)(''X-Hop-Count'' \<mapsto> Itoa hc, ''X-Relay-Node'' \<mapsto> node,
          ''X-Original-Request-Id'' \<mapsto> req_RequestID p,
          ''X-Visited-Nodes'' \<mapsto>
             (case req_Headers p ''X-Visited-Nodes'' of
                None \<Rightarrow> node
              | Some v \<Rightarrow> if v = [] then node else v @ '','' @ node)),
       out_Body = relayPrefix node hc @ req_Body p\<rparr>]"
  by (simp add: forwardRequest_part007_def Let_def split: option.splits)

text \<open>
  C5, as the code has it. A forward started by \<^verbatim>\<open>processEvent\<close> whose request can be
  built hands one request to the client: a \<open>POST\<close> whose URL is the route's next hop
  followed by the original path, with \<open>X-Hop-Count\<close> the hop count \<^verbatim>\<open>processEvent\<close>
  computed, \<open>X-Relay-Node\<close> the name of the forwarding node, and every other header the
  payload's own, so in examples/relay-node an \<open>X-Visited-Nodes\<close> header is passed on as
  received. The \<^verbatim>\<open>forwardRequest\<close> of the single-route relay node (part_007), for the same
  arguments, does the same and also sets \<open>X-Original-Request-Id\<close> to the id of the
  payload and \<open>X-Visited-Nodes\<close> to the node's name, after the received trail and a comma
  when that trail is not empty; the headers it passes on as received are all but these
  four.
\<close>

theorem forward_wire_contract:
  assumes "processEvent cfg nf st evt = Some (st', acts)" and "Forward r p hc \<in> set acts"
    and "\<not> newRequestFails net (nextHop r @ req_Path p)"
  shows "resolveRoute cfg evt = Some r \<and> hc = hopCountOf (req_Headers p) \<and>
         (\<exists>req. snd (forwardGoroutine net cfg r p hc st') = [req] \<and>
            fst (forwardRequest net (nextHop r) p hc (nodeName cfg)) = [req] \<and>
            out_Method req = ''POST'' \<and>
            out_URL req = nextHop r @ req_Path p \<and>
            out_Header req ''X-Hop-Count'' = Some (Itoa hc) \<and>
            out_Header req ''X-Relay-Node'' = Some (nodeName cfg) \<and>
            (\<forall>k. k \<noteq> ''X-Hop-Count'' \<and> k \<noteq> ''X-Relay-Node'' \<longrightarrow>
                 out_Header req k = req_Headers p k)) \<and>
         (\<exists>req. fst (forwardRequest_part007 net (nextHop r) p hc (nodeName cfg)) = [req] \<and>
            out_Method req = ''POST'' \<and>
            out_URL req = nextHop r @ req_Path p \<and>
            out_Header req ''X-Hop-Count'' = Some (Itoa hc) \<and>
            out_Header req ''X-Relay-Node'' = Some (nodeName cfg) \<and>
            out_Header req ''X-Original-Request-Id'' = Some (req_RequestID p) \<and>
            out_Header req ''X-Visited-Nodes'' =
              Some (case req_Headers p ''X-Visited-Nodes'' of
                      None \<Rightarrow> nodeName cfg
                    | Some v \<Rightarrow> if v = [] then nodeName cfg else v @ '','' @ nodeName cfg) \<and>
            (\<forall>k. k \<noteq> ''X-Hop-Count'' \<and> k \<noteq> ''X-Relay-Node'' \<and>
                 k \<noteq> ''X-Original-Request-Id'' \<and> k \<noteq> ''X-Visited-Nodes'' \<longrightarrow>
                 out_Header req k = req_Headers p k))"
proof -
  note pe = processEvent_Forward [OF assms(1,2)]
  note s1 = forwardRequest_sent [OF assms(3), of hc "nodeName cfg"]
  note s2 = forwardRequest_part007_sent [OF assms(3), of hc "nodeName cfg"]
  have a: "\<exists>req. snd (forwardGoroutine net cfg r p hc st') = [req] \<and>
            fst (forwardRequest net (nextHop r) p hc (nodeName cfg)) = [req] \<and>
            out_Method req = ''POST'' \<and>
            out_URL req = nextHop r @ req_Path p \<and>
            out_Header req ''X-Hop-Count'' = Some (Itoa hc) \<and>
            out_Header req ''X-Relay-Node'' = Some (nodeName cfg) \<and>
            (\<forall>k. k \<noteq> ''X-Hop-Count'' \<and> k \<noteq> ''X-Relay-Node'' \<longrightarrow>
                 out_Header req k = req_Headers p k)"
    by (simp add: forwardGoroutine_eq s1)
  have b: "\<exists>req. fst (forwardRequest_part007 net (nextHop r) p hc (nodeName cfg)) = [req] \<and>
            out_Method req = ''POST'' \<and>
            out_URL req = nextHop r @ req_Path p \<and>
            out_Header req ''X-Hop-Count'' = Some (Itoa hc) \<and>
            out_Header req ''X-Relay-Node'' = Some (nodeName cfg) \<and>
            out_Header req ''X-Original-Request-Id'' = Some (req_RequestID p) \<and>
            out_Header req ''X-Visited-Nodes'' =
              Some (case req_Headers p ''X-Visited-Nodes'' of
                      None \<Rightarrow> nodeName cfg
                    | Some v \<Rightarrow> if v = [] then nodeName cfg else v @ '','' @ nodeName cfg) \<and>
            (\<forall>k. k \<noteq> ''X-Hop-Count'' \<and> k \<noteq> ''X-Relay-Node'' \<and>
                 k \<noteq> ''X-Original-Request-Id'' \<and> k \<noteq> ''X-Visited-Nodes'' \<longrightarrow>
                 out_Header req k = req_Headers p k)"
    by (simp add: s2)
  from pe a b show ?thesis by blast
qed

theorem forward_wire_contract_witness:
  "processEvent exConfig False exState (exEvent [''Accept'' \<mapsto> ''text/plain'']) =
     Some (bump incReceived exRoute exState,
           [Forward exRoute (exPayload [''Accept'' \<mapsto> ''text/plain'']) 1,
            Publish (ackResponse exConfig (exPayload [''Accept'' \<mapsto> ''text/plain'']) 1)]) \<and>
   \<not> newRequestFails exNet
       (nextHop exRoute @ req_Path (exPayload [''Accept'' \<mapsto> ''text/plain''])) \<and>
   ''Accept'' \<noteq> ''X-Hop-Count'' \<and> ''Accept'' \<noteq> ''X-Relay-Node'' \<and>
   (\<exists>req. snd (forwardGoroutine exNet exConfig exRoute
                 (exPayload [''Accept'' \<mapsto> ''text/plain'']) 1
                 (bump incReceived exRoute exState)) = [req] \<and>
      out_Method req = ''POST'' \<and>
      out_Header req ''X-Relay-Node'' = Some ''NodeB'' \<and>
      out_Header req ''Accept'' = Some ''text/plain'') \<and>
   (\<exists>req. fst (forwardRequest_part007 exNet (nextHop exRoute)
                 (exPayload [''Accept'' \<mapsto> ''text/plain'']) 1 ''NodeB'') = [req] \<and>
      out_Header req ''X-Original-Request-Id'' = Some ''req-1'' \<and>
      out_Header req ''X-Visited-Nodes'' = Some ''NodeB'')"
proof -
  let ?p = "exPayload [''Accept'' \<mapsto> ''text/plain'']"
  have h2: "Forward exRoute ?p 1 \<in>
      set [Forward exRoute ?p 1, Publish (ackResponse exConfig ?p 1)]"
    by simp
  have h3: "\<not> newRequestFails exNet (nextHop exRoute @ req_Path ?p)"
    by simp
  note t = forward_wire_contract [OF exProcess h2 h3]
  from t obtain req where r: "snd (forwardGoroutine exNet exConfig exRoute ?p 1
        (bump incReceived exRoute exState)) = [req]"
      "out_Method req = ''POST''"
      "out_Header req ''X-Relay-Node'' = Some (nodeName exConfig)"
      "\<forall>k. k \<noteq> ''X-Hop-Count'' \<and> k \<noteq> ''X-Relay-Node'' \<longrightarrow>
         out_Header req k = req_Headers ?p k"
    by blast
  from t obtain req' where r': "fst (forwardRequest_part007 exNet (nextHop exRoute) ?p 1
        (nodeName exConfig)) = [req']"
      "out_Header req' ''X-Original-Request-Id'' = Some (req_RequestID ?p)"
      "out_Header req' ''X-Visited-Nodes'' =
         Some (case req_Headers ?p ''X-Visited-Nodes'' of
                 None \<Rightarrow> nodeName exConfig
               | Some v \<Rightarrow> if v = [] then nodeName exConfig else v @ '','' @ nodeName exConfig)"
    by blast
  have a: "out_Header req ''Accept'' = Some ''text/plain''"
    using r(4) by simp
  have v: "out_Header req' ''X-Visited-Nodes'' = Some ''NodeB''"
    using r'(3) by simp
  have i: "out_Header req' ''X-Original-Request-Id'' = Some ''req-1''"
    using r'(2) by (simp add: exPayload_def)
  have n: "''Accept'' \<noteq> ''X-Hop-Count'' \<and> ''Accept'' \<noteq> ''X-Relay-Node''" by simp
  from r(1,2,3) a r'(1) v i exProcess h3 n show ?thesis by simp
qed

text \<open>
  The \<^verbatim>\<open>forwardRequest\<close> of examples/relay-node appends nothing to the trail: a request
  that arrives without \<open>X-Visited-Nodes\<close> leaves without it, and one that arrives with
  the trail \<open>NodeA\<close> leaves node \<open>NodeB\<close> with the trail \<open>NodeA\<close>.
\<close>

theorem forward_visited_nodes_counterexample:
  "map visitedTrail
     (fst (forwardRequest exNet ''http://node-c:8080'' (exPayload Map.empty) 1 ''NodeB'')) =
     [None] \<and>
   map visitedTrail
     (fst (forwardRequest exNet ''http://node-c:8080''
        (exPayload [''X-Visited-Nodes'' \<mapsto> ''NodeA'']) 2 ''NodeB'')) = [Some ''NodeA'']"
  by (simp add: forwardRequest_def Let_def visitedTrail_def)

text \<open>
  C8. Whatever the method of the inbound request, a forward whose request can be built
  issues a \<open>POST\<close>, and its body is the original body after the marker made of an opening
  bracket, the node's name, the arrow, \<open>hop\<close>, the hop count, a closing bracket and a
  space: the body on the wire is never the original body, and the method of the payload
  has no part in the result. Both variants of \<^verbatim>\<open>forwardRequest\<close> do so.
\<close>

theorem forward_method_and_body:
  assumes "\<not> newRequestFails net (hop @ req_Path p)"
  shows "(\<exists>req. fst (forwardRequest net hop p hc node) = [req] \<and>
            out_Method req = ''POST'' \<and>
            out_Body req = ''['' @ node @ arrow @ ''hop'' @ Itoa hc @ ''] '' @ req_Body p \<and>
            out_Body req \<noteq> req_Body p) \<and>
         (\<exists>req. fst (forwardRequest_part007 net hop p hc node) = [req] \<and>
            out_Method req = ''POST'' \<and>
            out_Body req = ''['' @ node @ arrow @ ''hop'' @ Itoa hc @ ''] '' @ req_Body p \<and>
            out_Body req \<noteq> req_Body p) \<and>
         forwardRequest net hop (p\<lparr>req_Method := m\<rparr>) hc node = forwardRequest net hop p hc node"
  using assms
  by (simp add: forwardRequest_def forwardRequest_part007_def Let_def relayPrefix_def
      split: option.splits)

theorem forward_method_and_body_witness:
  "\<not> newRequestFails exNet (''http://node-c:8080'' @ req_Path (exPayload Map.empty)) \<and>
   req_Method (exPayload Map.empty) = ''GET'' \<and>
   (\<exists>req. fst (forwardRequest exNet ''http://node-c:8080'' (exPayload Map.empty) 1 ''NodeB'') =
            [req] \<and>
      out_Method req = ''POST'' \<and>
      out_Body req = ''[NodeB'' @ arrow @ ''hop1] hello'')"
proof -
  have h: "\<not> newRequestFails exNet (''http://node-c:8080'' @ req_Path (exPayload Map.empty))"
    by simp
  have i: "Itoa 1 = ''1''" by (simp add: Itoa_def natDigits.simps digitChar_def)
  have b: "req_Body (exPayload Map.empty) = ''hello''" "req_Method (exPayload Map.empty) = ''GET''"
    by (simp_all add: exPayload_def)
  from forward_method_and_body [OF h, of 1 "''NodeB''"]
  show ?thesis using h i b by auto
qed

section \<open>The pending-response handle and the listener\<close>

lemma onConn_simps [simp]:
  "conns (onConn w f s) = (conns s)(w := f (conns s w))"
  "handles (onConn w f s) = handles s"
  "nextHandle (onConn w f s) = nextHandle s"
  "globalResponseWriters (onConn w f s) = globalResponseWriters s"
  "regOps (onConn w f s) = regOps s"
  "publishCalls (onConn w f s) = publishCalls s"
  by (simp_all add: onConn_def)

lemma onHandle_simps [simp]:
  "conns (onHandle rw f s) = conns s"
  "handles (onHandle rw f s) = (handles s)(rw := f (handles s rw))"
  "nextHandle (onHandle rw f s) = nextHandle s"
  "globalResponseWriters (onHandle rw f s) = globalResponseWriters s"
  "regOps (onHandle rw f s) = regOps s"
  "publishCalls (onHandle rw f s) = publishCalls s"
  by (simp_all add: onHandle_def)

lemma registryDelete_simps [simp]:
  "conns (registryDelete k s) = conns s"
  "handles (registryDelete k s) = handles s"
  "nextHandle (registryDelete k s) = nextHandle s"
  "globalResponseWriters (registryDelete k s) = (globalResponseWriters s)(k := None)"
  "regOps (registryDelete k s) = regOps s @ [Delete k]"
  "publishCalls (registryDelete k s) = publishCalls s"
  by (simp_all add: registryDelete_def)

lemma registryStore_simps [simp]:
  "conns (registryStore k rw s) = conns s"
  "handles (registryStore k rw s) = handles s"
  "nextHandle (registryStore k rw s) = nextHandle s"
  "globalResponseWriters (registryStore k rw s) = (globalResponseWriters s)(k \<mapsto> rw)"
  "regOps (registryStore k rw s) = regOps s @ [Store k]"
  "publishCalls (registryStore k rw s) = publishCalls s"
  by (simp_all add: registryStore_def)

lemma http_Error_calls [simp]:
  "calls (http_Error msg code wr) = calls wr @ [WriteHeader code, Write (msg @ [CHR 0x0A])]"
  by (simp add: http_Error_def)

subsection \<open>What the steps change\<close>

lemma ingress_handles:
  "rw < nextHandle s \<Longrightarrow>
     handles (fst (handleRequest_ingress ad env w r s)) rw = handles s rw \<and>
     rw < nextHandle (fst (handleRequest_ingress ad env w r s))"
  by (simp add: handleRequest_ingress_def Let_def split: option.splits)

lemma select_handles:
  "handleRequest_select c elapsed rw s = Some (s', pc) \<Longrightarrow>
     handles s' = handles s \<and> nextHandle s' = nextHandle s \<and> conns s' = conns s"
  by (auto simp: handleRequest_select_def Let_def split: SelectCase.splits if_splits)

lemma timeout_handles:
  "handles (fst (handleRequest_timeout pc s)) = handles s \<and>
   nextHandle (fst (handleRequest_timeout pc s)) = nextHandle s \<and>
   regOps (fst (handleRequest_timeout pc s)) = regOps s \<and>
   globalResponseWriters (fst (handleRequest_timeout pc s)) = globalResponseWriters s"
  by (cases pc) simp_all

lemma writerStep_registry:
  "writerStep rw sc hs b pc s = Some (s', pc') \<Longrightarrow>
     regOps s' = regOps s \<and> globalResponseWriters s' = globalResponseWriters s \<and>
     nextHandle s' = nextHandle s"
  by (cases pc) (auto simp: Let_def split: if_splits option.splits)

lemma writerStep_identity:
  "writerStep rw sc hs b pc s = Some (s', pc') \<Longrightarrow>
     rw_requestID (handles s' a) = rw_requestID (handles s a) \<and>
     rw_w (handles s' a) = rw_w (handles s a)"
  by (cases pc) (auto simp: Let_def split: if_splits option.splits)

lemma writerStep_settled:
  "writerStep rw sc hs b pc s = Some (s', pc') \<Longrightarrow> settled a s \<Longrightarrow> settled a s'"
  by (cases pc) (auto simp: settled_def Let_def split: if_splits option.splits)

lemma step_settled: "step s s' \<Longrightarrow> settled a s \<Longrightarrow> settled a s'"
proof (induction rule: step.induct)
  case (arrives s ad env w r)
  then show ?case using ingress_handles [of a s ad env w r] by (simp add: settled_def)
next
  case (selects c elapsed rw s s' pc)
  then show ?case using select_handles [of c elapsed rw s s' pc] by (simp add: settled_def)
next
  case (handler s pc)
  then show ?case using timeout_handles [of pc s] by (simp add: settled_def)
next
  case (writer rw statusCode headers body pc s s' pc')
  then show ?case by (rule writerStep_settled)
next
  case (connection s w err)
  then show ?case by (simp add: settled_def)
qed

lemma steps_settled: "rtranclp step s t \<Longrightarrow> settled a s \<Longrightarrow> settled a t"
  by (induction rule: rtranclp_induct) (auto intro: step_settled)

lemma step_identity:
  "step s s' \<Longrightarrow> a < nextHandle s \<Longrightarrow>
     a < nextHandle s' \<and> rw_requestID (handles s' a) = rw_requestID (handles s a) \<and>
     rw_w (handles s' a) = rw_w (handles s a)"
proof (induction rule: step.induct)
  case (arrives s ad env w r)
  then show ?case using ingress_handles [of a s ad env w r] by simp
next
  case (selects c elapsed rw s s' pc)
  then show ?case using select_handles [of c elapsed rw s s' pc] by simp
next
  case (handler s pc)
  then show ?case using timeout_handles [of pc s] by simp
next
  case (writer rw statusCode headers body pc s s' pc')
  then show ?case
    using writerStep_identity [of rw statusCode headers body pc s s' pc' a]
      writerStep_registry [of rw statusCode headers body pc s s' pc']
    by simp
next
  case (connection s w err)
  then show ?case by simp
qed

lemma steps_identity:
  "rtranclp step s t \<Longrightarrow> a < nextHandle s \<Longrightarrow>
     a < nextHandle t \<and> rw_requestID (handles t a) = rw_requestID (handles s a) \<and>
     rw_w (handles t a) = rw_w (handles s a)"
proof (induction rule: rtranclp_induct)
  case base
  then show ?case by simp
next
  case (step y z)
  then show ?case using step_identity [of y z a] by simp
qed

subsection \<open>A whole call of WriteResponse\<close>

lemma WriteResponse_rejected:
  "\<not> rw_mu (handles s rw) \<Longrightarrow> rw_written (handles s rw) \<Longrightarrow>
     WriteResponse rw sc hs b s = Some (Some ResponseAlreadyWritten, s)"
  by (simp add: WriteResponse_def)

lemma WriteResponse_settled:
  "settled rw s \<Longrightarrow> WriteResponse rw sc hs b s = Some (Some ResponseAlreadyWritten, s)"
  by (simp add: settled_def WriteResponse_rejected)

lemma WriteResponse_success:
  assumes "WriteResponse rw sc hs b s = Some (None, s')"
  shows "rw_written (handles s' rw) \<and> rw_done (handles s' rw) \<and> \<not> rw_mu (handles s' rw) \<and>
         nextHandle s' = nextHandle s \<and> regOps s' = regOps s \<and>
         globalResponseWriters s' = globalResponseWriters s \<and>
         rw_requestID (handles s' rw) = rw_requestID (handles s rw) \<and>
         rw_w (handles s' rw) = rw_w (handles s rw)"
  using assms
  by (auto simp: WriteResponse_def Let_def split: if_splits option.splits)

lemma WriteResponse_ok:
  assumes "\<not> rw_mu (handles s rw)" and "\<not> rw_written (handles s rw)"
    and "100 \<le> sc" and "sc \<le> 999" and "writeError (conns s (rw_w (handles s rw))) = None"
  shows "\<exists>s'. WriteResponse rw sc hs b s = Some (None, s') \<and>
           callsOn (rw_w (handles s rw)) s' =
             callsOn (rw_w (handles s rw)) s @
               (if b \<noteq> [] then [WriteHeader sc, Write b] else [WriteHeader sc]) \<and>
           handles s' = (handles s)(rw := (handles s rw)\<lparr>rw_written := True, rw_done := True,
                                                        rw_mu := False\<rparr>)"
  using assms
  by (auto simp: WriteResponse_def Let_def callsOn_def)

subsection \<open>A call of WriteResponse among other goroutines\<close>

lemma writerStep_written:
  "writerStep rw sc hs b pc s = Some (s', pc') \<Longrightarrow> rw_written (handles s a) \<Longrightarrow>
     rw_written (handles s' a)"
  by (cases pc) (auto simp: Let_def split: if_splits option.splits)

lemma step_written:
  "step s s' \<Longrightarrow> a < nextHandle s \<Longrightarrow> rw_written (handles s a) \<Longrightarrow>
     rw_written (handles s' a)"
proof (induction rule: step.induct)
  case (arrives s ad env w r)
  then show ?case using ingress_handles [of a s ad env w r] by simp
next
  case (selects c elapsed rw s s' pc)
  then show ?case using select_handles [of c elapsed rw s s' pc] by simp
next
  case (handler s pc)
  then show ?case using timeout_handles [of pc s] by simp
next
  case (writer rw statusCode headers body pc s s' pc')
  then show ?case using writerStep_written by blast
next
  case (connection s w err)
  then show ?case by simp
qed

lemma writerStep_returns_nil:
  "writerStep rw sc hs b pc s = Some (s', WReturned None) \<Longrightarrow>
     pc = WCloseDone \<or> (pc = WReturned None \<and> s' = s)"
  by (cases pc) (auto simp: Let_def split: if_splits option.splits)

lemma writerStep_to_close:
  "writerStep rw sc hs b pc s = Some (s', WCloseDone) \<Longrightarrow> rw_written (handles s' rw)"
  by (cases pc) (auto simp: Let_def split: if_splits option.splits)

lemma writerStep_close:
  "writerStep rw sc hs b WCloseDone s = Some (s', pc') \<Longrightarrow> rw < nextHandle s \<Longrightarrow>
     rw_written (handles s rw) \<Longrightarrow> settled rw s'"
  by (auto simp: settled_def)

lemma callRun_invariant:
  assumes "callRun rw sc hs b pc0 s pc' s'" and "pc0 = WEnter" and "rw < nextHandle s"
  shows "rw < nextHandle s' \<and> (pc' = WCloseDone \<longrightarrow> rw_written (handles s' rw)) \<and>
         (pc' = WReturned None \<longrightarrow> settled rw s')"
  using assms
proof (induction rule: callRun.induct)
  case (starts rw sc hs b pc s)
  then show ?case by simp
next
  case (own rw sc hs b pc s pc1 s1 s2 pc2)
  from own.IH own.prems have ih: "rw < nextHandle s1"
    "pc1 = WCloseDone \<longrightarrow> rw_written (handles s1 rw)"
    "pc1 = WReturned None \<longrightarrow> settled rw s1"
    by simp_all
  note st = own.hyps(2)
  have a: "rw < nextHandle s2"
    using writerStep_registry [OF st] ih(1) by simp
  have b: "pc2 = WCloseDone \<longrightarrow> rw_written (handles s2 rw)"
    using writerStep_to_close st by blast
  have c: "pc2 = WReturned None \<longrightarrow> settled rw s2"
  proof
    assume e: "pc2 = WReturned None"
    with st have "pc1 = WCloseDone \<or> (pc1 = WReturned None \<and> s2 = s1)"
      using writerStep_returns_nil by blast
    then show "settled rw s2"
    proof
      assume p: "pc1 = WCloseDone"
      with st ih(1,2) show ?thesis using writerStep_close by blast
    next
      assume "pc1 = WReturned None \<and> s2 = s1"
      with ih(3) show ?thesis by simp
    qed
  qed
  from a b c show ?case by simp
next
  case (others rw sc hs b pc s pc1 s1 s2)
  from others.IH others.prems have ih: "rw < nextHandle s1"
    "pc1 = WCloseDone \<longrightarrow> rw_written (handles s1 rw)"
    "pc1 = WReturned None \<longrightarrow> settled rw s1"
    by simp_all
  note st = others.hyps(2)
  have a: "rw < nextHandle s2" using step_identity [OF st ih(1)] by simp
  have b: "pc1 = WCloseDone \<longrightarrow> rw_written (handles s2 rw)"
    using step_written [OF st ih(1)] ih(2) by simp
  have c: "pc1 = WReturned None \<longrightarrow> settled rw s2"
    using step_settled [OF st] ih(3) by simp
  from a b c show ?case by simp
qed

lemma callRun_settled:
  "rw < nextHandle s \<Longrightarrow> callRun rw sc hs b WEnter s (WReturned None) s' \<Longrightarrow> settled rw s'"
  using callRun_invariant [of rw sc hs b WEnter s "WReturned None" s'] by simp

lemma callRun_identity:
  assumes "callRun rw sc hs b pc s pc' s'" and "a < nextHandle s"
  shows "a < nextHandle s' \<and> rw_requestID (handles s' a) = rw_requestID (handles s a) \<and>
         rw_w (handles s' a) = rw_w (handles s a)"
  using assms
proof (induction rule: callRun.induct)
  case (starts rw sc hs b pc s)
  then show ?case by simp
next
  case (own rw sc hs b pc s pc1 s1 s2 pc2)
  then show ?case
    using writerStep_identity [OF own.hyps(2), of a] writerStep_registry [OF own.hyps(2)]
    by simp
next
  case (others rw sc hs b pc s pc1 s1 s2)
  then show ?case using step_identity [OF others.hyps(2), of a] by simp
qed

lemma callRun_prepend:
  assumes "callRun rw sc hs b pc1 s1 pc' s'" and "writerStep rw sc hs b pc s = Some (s1, pc1)"
  shows "callRun rw sc hs b pc s pc' s'"
  using assms
proof (induction rule: callRun.induct)
  case (starts rw sc hs b pc1 s1)
  then show ?case using callRun.own [OF callRun.starts] by blast
next
  case (own rw sc hs b pc1 s1 pc2 s2 s3 pc3)
  then show ?case using callRun.own by blast
next
  case (others rw sc hs b pc1 s1 pc2 s2 s3)
  then show ?case using callRun.others by blast
qed

lemma writerRun_callRun:
  "writerRun n rw sc hs b pc s = Some (s', pc') \<Longrightarrow> callRun rw sc hs b pc s pc' s'"
proof (induction n arbitrary: pc s)
  case 0
  then show ?case by (simp add: callRun.starts)
next
  case (Suc n)
  from Suc.prems obtain s1 pc1 where st: "writerStep rw sc hs b pc s = Some (s1, pc1)"
    and run: "writerRun n rw sc hs b pc1 s1 = Some (s', pc')"
    by (auto split: option.splits)
  from Suc.IH [OF run] st show ?case by (rule callRun_prepend)
qed

lemma WriteResponse_callRun:
  assumes "WriteResponse rw sc hs b s = Some (e, s')"
  shows "callRun rw sc hs b WEnter s (WReturned e) s'"
proof -
  from assms have "writerRun (Suc (Suc (Suc (Suc (Suc (Suc 0)))))) rw sc hs b WEnter s =
      Some (s', WReturned e)"
    by (auto simp del: writerRun.simps simp: WriteResponse_def
        split: option.splits WriterPC.splits)
  then show ?thesis by (rule writerRun_callRun)
qed


subsection \<open>The sample schedules\<close>

lemma resultState_eq: "resultError res = Some e \<Longrightarrow> res = Some (e, resultState res)"
  by (cases res) (auto simp: resultError_def resultState_def)

lemma exWaiting_eq:
  "handleRequest_ingress (NewServerAdapter '':8080'') (exEnv False) 0 exRequest initState =
     (exWaiting, Waiting 0)"
  by (simp add: exWaiting_def handleRequest_ingress_def Let_def exEnv_def exRequest_def
      initState_def)

lemma exWaiting_handle [simp]:
  "handles exWaiting 0 =
     \<lparr>rw_w = 0, rw_requestID = ''req-1'', rw_written = False, rw_done = False, rw_mu = False\<rparr>"
  by (simp add: exWaiting_def handleRequest_ingress_def Let_def exEnv_def exRequest_def
      initState_def)

lemma exWaiting_conn [simp]: "callsOn 0 exWaiting = []"
  by (simp add: exWaiting_def handleRequest_ingress_def Let_def exEnv_def exRequest_def
      initState_def callsOn_def emptyWriter_def)

lemma exWaiting_writeError [simp]: "writeError (conns exWaiting 0) = None"
  by (simp add: exWaiting_def handleRequest_ingress_def Let_def exEnv_def exRequest_def
      initState_def emptyWriter_def)

lemma exWaiting_registry [simp]: "globalResponseWriters exWaiting = [''req-1'' \<mapsto> 0]"
  by (simp add: exWaiting_def handleRequest_ingress_def Let_def exEnv_def exRequest_def
      initState_def)

lemma exWaiting_regOps [simp]: "regOps exWaiting = [Store ''req-1'']"
  by (simp add: exWaiting_def handleRequest_ingress_def Let_def exEnv_def exRequest_def
      initState_def)

lemma exWaiting_nextHandle [simp]: "nextHandle exWaiting = Suc 0"
  by (simp add: exWaiting_def handleRequest_ingress_def Let_def exEnv_def exRequest_def
      initState_def)

lemma exResponseEvent_decode [simp]:
  "ev_DecodePayload exResponseEvent =
     Some \<lparr>resp_RequestID = ''req-1'', resp_StatusCode = 200,
           resp_Headers = [''Content-Type'' \<mapsto> ''text/plain''], resp_Body = ''echo''\<rparr>"
  by (simp add: exResponseEvent_def WithMetadata_def NewEvent_def)

text \<open>The second schedule.\<close>

lemma exResolved_eq:
  "exResolved = WriteResponse 0 200 [''Content-Type'' \<mapsto> ''text/plain''] ''echo'' exWaiting"
  by (simp add: exResolved_def Emit_def GetResponseWriter_def)

lemma exResolved_facts:
  "exResolved = Some (None, resultState exResolved)"
  "callsOn 0 (resultState exResolved) = [WriteHeader 200, Write ''echo'']"
  "handles (resultState exResolved) 0 =
     \<lparr>rw_w = 0, rw_requestID = ''req-1'', rw_written = True, rw_done = True, rw_mu = False\<rparr>"
proof -
  from WriteResponse_ok [of exWaiting 0 200 "[''Content-Type'' \<mapsto> ''text/plain'']" "''echo''"]
  obtain s' where s': "exResolved = Some (None, s')"
    "callsOn 0 s' = [WriteHeader 200, Write ''echo'']"
    "handles s' = (handles exWaiting)(0 := (handles exWaiting 0)\<lparr>rw_written := True,
        rw_done := True, rw_mu := False\<rparr>)"
    by (auto simp: exResolved_eq)
  have r: "resultState exResolved = s'" unfolding resultState_def s'(1) by simp
  show "exResolved = Some (None, resultState exResolved)" using s'(1) r by simp
  show "callsOn 0 (resultState exResolved) = [WriteHeader 200, Write ''echo'']"
    using s'(2) r by simp
  show "handles (resultState exResolved) 0 =
     \<lparr>rw_w = 0, rw_requestID = ''req-1'', rw_written = True, rw_done = True, rw_mu = False\<rparr>"
    using s'(3) r by simp
qed

lemma exResolved_write:
  "WriteResponse 0 200 [''Content-Type'' \<mapsto> ''text/plain''] ''echo'' exWaiting =
     Some (None, resultState exResolved)"
  using exResolved_facts(1) by (simp add: exResolved_eq)

lemma exResolved_registry [simp]:
  "globalResponseWriters (resultState exResolved) = [''req-1'' \<mapsto> 0]"
  using WriteResponse_success [OF exResolved_write] by simp

lemma exResolved_regOps [simp]: "regOps (resultState exResolved) = [Store ''req-1'']"
  using WriteResponse_success [OF exResolved_write] by simp

lemma exFinished_select:
  "handleRequest_select CaseDone 0 0 (resultState exResolved) =
     Some (registryDelete ''req-1'' (resultState exResolved), HandlerReturned)"
  by (simp add: handleRequest_select_def Let_def exResolved_facts(3))

lemma exFinished_eq: "exFinished = registryDelete ''req-1'' (resultState exResolved)"
  by (simp add: exFinished_def exFinished_select stateOf_def)

lemma exFinished_steps: "rtranclp step (resultState exResolved) exFinished"
  using step.selects [OF exFinished_select] by (simp add: exFinished_eq)

lemma exRedelivered_eq:
  "exRedelivered = Some (Some (NoResponseWriter ''req-1''), exFinished)"
  by (simp add: exRedelivered_def Emit_def GetResponseWriter_def exFinished_eq)

text \<open>The first schedule.\<close>

lemma exChosen_select:
  "handleRequest_select CaseTimeout 30 0 exWaiting =
     Some (registryDelete ''req-1'' exWaiting, ReadWritten 0)"
  by (simp add: handleRequest_select_def Let_def responseTimeout_def)

lemma exChosen_eq: "exChosen = registryDelete ''req-1'' exWaiting"
  by (simp add: exChosen_def exChosen_select stateOf_def)

lemma exRead_eq: "exRead = (registryDelete ''req-1'' exWaiting, CallWriteHeader 0)"
  by (simp add: exRead_def exChosen_eq)

lemma exRaceWrite_facts:
  "resultError exRaceWrite = Some None"
  "callsOn 0 (resultState exRaceWrite) = [WriteHeader 200, Write ''echo'']"
  "rw_w (handles (resultState exRaceWrite) 0) = 0"
proof -
  let ?s = "registryDelete ''req-1'' exWaiting"
  have c: "callsOn 0 ?s = []" using exWaiting_conn by (simp add: callsOn_def)
  from WriteResponse_ok [of ?s 0 200 "[''Content-Type'' \<mapsto> ''text/plain'']" "''echo''"]
  obtain s' where s': "exRaceWrite = Some (None, s')"
    "callsOn 0 s' = [WriteHeader 200, Write ''echo'']"
    "handles s' = (handles ?s)(0 := (handles ?s 0)\<lparr>rw_written := True,
        rw_done := True, rw_mu := False\<rparr>)"
    using c by (auto simp: exRaceWrite_def exRead_eq)
  have r: "resultState exRaceWrite = s'" unfolding resultState_def s'(1) by simp
  show "resultError exRaceWrite = Some None" unfolding resultError_def s'(1) by simp
  show "callsOn 0 (resultState exRaceWrite) = [WriteHeader 200, Write ''echo'']"
    using s'(2) r by simp
  show "rw_w (handles (resultState exRaceWrite) 0) = 0" using s'(3) r by simp
qed

lemma exRaceEnd_facts:
  "snd exRaceEnd = HandlerReturned"
  "callsOn 0 (fst exRaceEnd) =
     [WriteHeader 200, Write ''echo'', WriteHeader 200, Write ''Request processed'']"
proof -
  have c: "calls (conns (resultState exRaceWrite) 0) = [WriteHeader 200, Write ''echo'']"
    using exRaceWrite_facts(2) by (simp add: callsOn_def)
  show "snd exRaceEnd = HandlerReturned"
    by (simp add: exRaceEnd_def exRead_eq)
  show "callsOn 0 (fst exRaceEnd) =
     [WriteHeader 200, Write ''echo'', WriteHeader 200, Write ''Request processed'']"
    by (simp add: exRaceEnd_def exRead_eq callsOn_def exRaceWrite_facts(3) c)
qed





subsection \<open>Writes on a handle\<close>

text \<open>
  C2, as the code has it. After a first successful \<^verbatim>\<open>WriteResponse\<close> on a handle (a
  call that has returned nil, whatever ran between its statements), in every state the
  listener gets into from there, whatever the goroutines do: every further
  \<^verbatim>\<open>WriteResponse\<close> on that handle is rejected at its first statement with the error
  \<open>response already written\<close> and changes nothing, neither the handle nor the writer;
  so does a response event emitted while the registry still gives that handle, and once
  the registry has no entry for the id the emitter returns \<open>no response writer found\<close>
  and changes nothing either. A handler that takes a case of its \<^verbatim>\<open>select\<close> after the
  write makes no call on the writer in doing so, and a handler that reads
  \<^verbatim>\<open>rw.written\<close> after the write returns without a call on the writer (and without an
  error). Nothing is said of a handler that has read the flag before the write.
\<close>

theorem second_write_rejected:
  assumes "rw < nextHandle s" and "callRun rw sc hs b WEnter s (WReturned None) s'"
    and "rtranclp step s' t"
  shows "writerStep rw sc2 hs2 b2 WEnter t = Some (t, WReturned (Some ResponseAlreadyWritten)) \<and>
         WriteResponse rw sc2 hs2 b2 t = Some (Some ResponseAlreadyWritten, t) \<and>
         errorText ResponseAlreadyWritten = ''response already written'' \<and>
         (ev_DecodePayload evt = Some p \<and> GetResponseWriter (resp_RequestID p) t = Some rw \<longrightarrow>
            Emit evt t = Some (Some ResponseAlreadyWritten, t)) \<and>
         (ev_DecodePayload evt = Some p \<and> GetResponseWriter (resp_RequestID p) t = None \<longrightarrow>
            Emit evt t = Some (Some (NoResponseWriter (resp_RequestID p)), t)) \<and>
         (handleRequest_select c elapsed rw t = Some (t', pc) \<longrightarrow>
            conns t' = conns t \<and> (pc = HandlerReturned \<or> pc = ReadWritten rw)) \<and>
         handleRequest_timeout (ReadWritten rw) t = (t, HandlerReturned)"
proof -
  from assms(1,2) have "settled rw s'" by (rule callRun_settled)
  with assms(3) have st: "settled rw t" by (rule steps_settled)
  have a: "WriteResponse rw sc2 hs2 b2 t = Some (Some ResponseAlreadyWritten, t)" for sc2 hs2 b2
    using st by (rule WriteResponse_settled)
  have a': "writerStep rw sc2 hs2 b2 WEnter t = Some (t, WReturned (Some ResponseAlreadyWritten))"
    using st by (simp add: settled_def)
  have b: "ev_DecodePayload evt = Some p \<and> GetResponseWriter (resp_RequestID p) t = Some rw \<longrightarrow>
            Emit evt t = Some (Some ResponseAlreadyWritten, t)"
    using a by (simp add: Emit_def)
  have b': "ev_DecodePayload evt = Some p \<and> GetResponseWriter (resp_RequestID p) t = None \<longrightarrow>
            Emit evt t = Some (Some (NoResponseWriter (resp_RequestID p)), t)"
    by (simp add: Emit_def)
  have c: "handleRequest_select c elapsed rw t = Some (t', pc) \<longrightarrow>
            conns t' = conns t \<and> (pc = HandlerReturned \<or> pc = ReadWritten rw)"
    by (auto simp: handleRequest_select_def Let_def split: SelectCase.splits if_splits)
  have d: "handleRequest_timeout (ReadWritten rw) t = (t, HandlerReturned)"
    using st by (simp add: settled_def)
  from a a' b b' c d show ?thesis by simp
qed

theorem second_write_rejected_witness:
  "(0::nat) < nextHandle exWaiting \<and>
   WriteResponse 0 200 [''Content-Type'' \<mapsto> ''text/plain''] ''echo'' exWaiting =
     Some (None, resultState exResolved) \<and>
   callRun 0 200 [''Content-Type'' \<mapsto> ''text/plain''] ''echo'' WEnter exWaiting
     (WReturned None) (resultState exResolved) \<and>
   rtranclp step (resultState exResolved) (resultState exResolved) \<and>
   rtranclp step (resultState exResolved) exFinished \<and>
   ev_DecodePayload exResponseEvent \<noteq> None \<and>
   GetResponseWriter ''req-1'' (resultState exResolved) = Some 0 \<and>
   Emit exResponseEvent (resultState exResolved) =
     Some (Some ResponseAlreadyWritten, resultState exResolved) \<and>
   handleRequest_select CaseDone 0 0 (resultState exResolved) =
     Some (exFinished, HandlerReturned) \<and>
   conns exFinished = conns (resultState exResolved) \<and>
   GetResponseWriter ''req-1'' exFinished = None \<and>
   Emit exResponseEvent exFinished = Some (Some (NoResponseWriter ''req-1''), exFinished) \<and>
   WriteResponse 0 200 Map.empty ''late'' exFinished =
     Some (Some ResponseAlreadyWritten, exFinished)"
proof -
  have h1: "(0::nat) < nextHandle exWaiting" by simp
  note w = exResolved_write
  note h2 = WriteResponse_callRun [OF w]
  have h3: "rtranclp step (resultState exResolved) (resultState exResolved)" by simp
  note h4 = exFinished_steps
  let ?p = "\<lparr>resp_RequestID = ''req-1'', resp_StatusCode = 200,
           resp_Headers = [''Content-Type'' \<mapsto> ''text/plain''], resp_Body = ''echo''\<rparr>"
  have g: "GetResponseWriter ''req-1'' (resultState exResolved) = Some 0"
    by (simp add: GetResponseWriter_def)
  have g': "GetResponseWriter ''req-1'' exFinished = None"
    by (simp add: GetResponseWriter_def exFinished_eq)
  have sel: "handleRequest_select CaseDone 0 0 (resultState exResolved) =
     Some (exFinished, HandlerReturned)"
    using exFinished_select by (simp add: exFinished_eq)
  note t1 = second_write_rejected [OF h1 h2 h3, where evt = exResponseEvent and p = ?p
      and c = CaseDone and elapsed = 0 and t' = exFinished and pc = HandlerReturned]
  note t2 = second_write_rejected [OF h1 h2 h4, where evt = exResponseEvent and p = ?p
      and ?sc2.0 = 200 and ?hs2.0 = Map.empty and ?b2.0 = "''late''"]
  from t1 g sel have a: "Emit exResponseEvent (resultState exResolved) =
     Some (Some ResponseAlreadyWritten, resultState exResolved)"
    "conns exFinished = conns (resultState exResolved)"
    by simp_all
  from t2 g' have b: "Emit exResponseEvent exFinished =
      Some (Some (NoResponseWriter ''req-1''), exFinished)"
    "WriteResponse 0 200 Map.empty ''late'' exFinished =
     Some (Some ResponseAlreadyWritten, exFinished)"
    by simp_all
  from h1 w h2 h3 h4 g g' sel a b show ?thesis by simp
qed

text \<open>
  Two schedules for request \<open>req-1\<close>, whose handle is at address 0. In the first the
  emitter has looked the handle up, the timer fires, the handler takes the timeout case
  and reads the flag, not set; the emitter's \<^verbatim>\<open>WriteResponse\<close> then runs and returns nil;
  the handler goes on and writes the fallback after it: the fallback is not rejected and
  the connection's writer has been written to twice. In the second the response is
  written, the handler finishes, and the response event is emitted again: the error is
  not \<open>response already written\<close>.
\<close>

theorem fallback_then_late_write_counterexample:
  "GetResponseWriter ''req-1'' exWaiting = Some 0 \<and>
   snd exRead = CallWriteHeader 0 \<and>
   resultError exRaceWrite = Some None \<and>
   snd exRaceEnd = HandlerReturned \<and>
   callsOn 0 (fst exRaceEnd) =
     [WriteHeader 200, Write ''echo'', WriteHeader 200, Write ''Request processed''] \<and>
   resultError exRedelivered = Some (Some (NoResponseWriter ''req-1'')) \<and>
   errorText (NoResponseWriter ''req-1'') \<noteq> ''response already written''"
  using exRaceWrite_facts(1) exRaceEnd_facts
  by (simp add: GetResponseWriter_def exRead_eq exRedelivered_eq resultError_def)

subsection \<open>The timeout\<close>




subsection \<open>A failed publish\<close>

text \<open>
  C4. When the body was read and the event made, and \<^verbatim>\<open>bus.Publish\<close> returns an error,
  \<^verbatim>\<open>handleRequest\<close> returns at once, without waiting on the handle: it has answered the
  caller with status 500 and the line \<open>Failed to process request\<close>, the registry has no
  entry for the request id, and \<^verbatim>\<open>Publish\<close> was called once.
\<close>

theorem publish_failure_fails_caller:
  assumes "r_Body r = Some body" and "\<not> env_newEventFails env" and "env_publishFails env"
  shows "\<exists>s'. handleRequest_ingress a env w r s = (s', Returned) \<and>
           callsOn w s' =
             callsOn w s @ [WriteHeader 500, Write (''Failed to process request'' @ [CHR 0x0A])] \<and>
           globalResponseWriters s' (env_uuid env) = None \<and>
           regOps s' = regOps s @ [Store (env_uuid env), Delete (env_uuid env)] \<and>
           length (publishCalls s') = Suc (length (publishCalls s))"
  using assms
  by (simp add: handleRequest_ingress_def Let_def callsOn_def)

theorem publish_failure_fails_caller_witness:
  "r_Body exRequest = Some ''hello'' \<and> \<not> env_newEventFails (exEnv True) \<and>
   env_publishFails (exEnv True) \<and>
   (\<exists>s'. handleRequest_ingress (NewServerAdapter '':8080'') (exEnv True) 0 exRequest initState =
            (s', Returned) \<and>
      callsOn 0 s' = [WriteHeader 500, Write (''Failed to process request'' @ [CHR 0x0A])] \<and>
      globalResponseWriters s' ''req-1'' = None \<and> length (publishCalls s') = 1)"
proof -
  have h1: "r_Body exRequest = Some ''hello''" by (simp add: exRequest_def)
  have h2: "\<not> env_newEventFails (exEnv True)" by (simp add: exEnv_def)
  have h3: "env_publishFails (exEnv True)" by (simp add: exEnv_def)
  have z: "callsOn 0 initState = []" "publishCalls initState = []"
    "env_uuid (exEnv True) = ''req-1''"
    by (simp_all add: callsOn_def initState_def emptyWriter_def exEnv_def)
  from publish_failure_fails_caller [OF h1 h2 h3, of "NewServerAdapter '':8080''" 0 initState]
  show ?thesis using h1 h2 h3 z by auto
qed

subsection \<open>The registry\<close>

text \<open>
  C7. On every path of \<^verbatim>\<open>handleRequest\<close> the registry is left without the request's id,
  and the id is deleted exactly once where it was stored. Up to the \<^verbatim>\<open>select\<close>: either
  the handler returns with the registry untouched (nothing was stored), or it returns
  after one \<^verbatim>\<open>Store\<close> and one \<^verbatim>\<open>Delete\<close> of the id (the publish failed), or it waits
  after one \<^verbatim>\<open>Store\<close>, the handle carrying the id. In the \<^verbatim>\<open>select\<close>, whichever case is
  taken makes exactly one \<^verbatim>\<open>Delete\<close> of the handle's id and takes nothing else out of
  the registry. The completion case is ready as soon as the channel is closed, so in
  every state after a \<^verbatim>\<open>WriteResponse\<close> on the handle has returned nil (whatever ran
  between its statements), and the handle still carries its id then; the timeout case is
  ready once 30 seconds have passed; so the handler does take a case. What it runs after the case, and the statements of
  \<^verbatim>\<open>WriteResponse\<close>, leave the registry as it is, and after three more statements at
  most the handler has returned.
\<close>

theorem registry_entry_removed_once:
  "(case handleRequest_ingress a env w r s of
      (s', Returned) \<Rightarrow>
        (regOps s' = regOps s \<and> globalResponseWriters s' = globalResponseWriters s) \<or>
        (regOps s' = regOps s @ [Store (env_uuid env), Delete (env_uuid env)] \<and>
         globalResponseWriters s' = (globalResponseWriters s)(env_uuid env := None))
    | (s', Waiting rw) \<Rightarrow>
        regOps s' = regOps s @ [Store (env_uuid env)] \<and>
        globalResponseWriters s' = (globalResponseWriters s)(env_uuid env \<mapsto> rw) \<and>
        rw_requestID (handles s' rw) = env_uuid env \<and> rw < nextHandle s') \<and>
   (handleRequest_select c elapsed h t = Some (t', pc) \<longrightarrow>
      regOps t' = regOps t @ [Delete (rw_requestID (handles t h))] \<and>
      globalResponseWriters t' = (globalResponseWriters t)(rw_requestID (handles t h) := None) \<and>
      dom (globalResponseWriters t') =
        dom (globalResponseWriters t) - {rw_requestID (handles t h)}) \<and>
   (rw_done (handles t h) \<longrightarrow> handleRequest_select CaseDone elapsed h t \<noteq> None) \<and>
   (h < nextHandle s0 \<and> callRun h sc hs b WEnter s0 (WReturned None) t0 \<and>
    rtranclp step t0 t \<longrightarrow>
      handleRequest_select CaseDone elapsed h t \<noteq> None \<and>
      rw_requestID (handles t h) = rw_requestID (handles s0 h)) \<and>
   (30 \<le> elapsed \<longrightarrow> handleRequest_select CaseTimeout elapsed h t \<noteq> None) \<and>
   regOps (fst (handleRequest_timeout pc u)) = regOps u \<and>
   globalResponseWriters (fst (handleRequest_timeout pc u)) = globalResponseWriters u \<and>
   (writerStep h sc hs b wpc u = Some (u', wpc') \<longrightarrow>
      regOps u' = regOps u \<and> globalResponseWriters u' = globalResponseWriters u) \<and>
   snd (timeoutRun (Suc (Suc (Suc 0))) pc u) = HandlerReturned"
proof -
  have a: "(case handleRequest_ingress a env w r s of
      (s', Returned) \<Rightarrow>
        (regOps s' = regOps s \<and> globalResponseWriters s' = globalResponseWriters s) \<or>
        (regOps s' = regOps s @ [Store (env_uuid env), Delete (env_uuid env)] \<and>
         globalResponseWriters s' = (globalResponseWriters s)(env_uuid env := None))
    | (s', Waiting rw) \<Rightarrow>
        regOps s' = regOps s @ [Store (env_uuid env)] \<and>
        globalResponseWriters s' = (globalResponseWriters s)(env_uuid env \<mapsto> rw) \<and>
        rw_requestID (handles s' rw) = env_uuid env \<and> rw < nextHandle s')"
    by (simp add: handleRequest_ingress_def Let_def split: option.splits)
  have b: "handleRequest_select c elapsed h t = Some (t', pc) \<longrightarrow>
      regOps t' = regOps t @ [Delete (rw_requestID (handles t h))] \<and>
      globalResponseWriters t' = (globalResponseWriters t)(rw_requestID (handles t h) := None) \<and>
      dom (globalResponseWriters t') =
        dom (globalResponseWriters t) - {rw_requestID (handles t h)}"
    by (auto simp: handleRequest_select_def Let_def split: SelectCase.splits if_splits)
  have c: "rw_done (handles t h) \<longrightarrow> handleRequest_select CaseDone elapsed h t \<noteq> None"
    by (simp add: handleRequest_select_def Let_def)
  have d: "handleRequest_select CaseDone elapsed h t \<noteq> None \<and>
      rw_requestID (handles t h) = rw_requestID (handles s0 h)"
    if p: "h < nextHandle s0 \<and> callRun h sc hs b WEnter s0 (WReturned None) t0 \<and>
      rtranclp step t0 t"
  proof -
    from p have w: "callRun h sc hs b WEnter s0 (WReturned None) t0" and al: "h < nextHandle s0"
      by simp_all
    from callRun_settled [OF al w] callRun_identity [OF w al]
    have s0: "settled h t0" "h < nextHandle t0"
      "rw_requestID (handles t0 h) = rw_requestID (handles s0 h)"
      by simp_all
    from p s0(1) have "settled h t" using steps_settled by blast
    then have "rw_done (handles t h)" by (simp add: settled_def)
    moreover from p s0(2) have "rw_requestID (handles t h) = rw_requestID (handles t0 h)"
      using steps_identity by blast
    ultimately show ?thesis using c s0(3) by simp
  qed
  have e: "30 \<le> elapsed \<longrightarrow> handleRequest_select CaseTimeout elapsed h t \<noteq> None"
    by (simp add: handleRequest_select_def Let_def responseTimeout_def)
  have f: "regOps (fst (handleRequest_timeout pc u)) = regOps u \<and>
      globalResponseWriters (fst (handleRequest_timeout pc u)) = globalResponseWriters u"
    using timeout_handles [of pc u] by simp
  have g: "writerStep h sc hs b wpc u = Some (u', wpc') \<longrightarrow>
      regOps u' = regOps u \<and> globalResponseWriters u' = globalResponseWriters u"
    using writerStep_registry [of h sc hs b wpc u u' wpc'] by simp
  have i: "snd (timeoutRun (Suc (Suc (Suc 0))) pc u) = HandlerReturned"
    by (cases pc) simp_all
  from a b c d e f g i show ?thesis by blast
qed

theorem registry_entry_removed_once_witness:
  "handleRequest_ingress (NewServerAdapter '':8080'') (exEnv False) 0 exRequest initState =
     (exWaiting, Waiting 0) \<and>
   regOps exWaiting = [Store ''req-1''] \<and>
   handleRequest_select CaseTimeout 30 0 exWaiting =
     Some (registryDelete ''req-1'' exWaiting, ReadWritten 0) \<and> (30::nat) \<le> 30 \<and>
   regOps (registryDelete ''req-1'' exWaiting) = [Store ''req-1'', Delete ''req-1''] \<and>
   globalResponseWriters (registryDelete ''req-1'' exWaiting) = Map.empty \<and>
   (0::nat) < nextHandle exWaiting \<and>
   WriteResponse 0 200 [''Content-Type'' \<mapsto> ''text/plain''] ''echo'' exWaiting =
     Some (None, resultState exResolved) \<and>
   callRun 0 200 [''Content-Type'' \<mapsto> ''text/plain''] ''echo'' WEnter exWaiting
     (WReturned None) (resultState exResolved) \<and>
   rtranclp step (resultState exResolved) (resultState exResolved) \<and>
   rw_done (handles (resultState exResolved) 0) \<and>
   rw_requestID (handles (resultState exResolved) 0) = rw_requestID (handles exWaiting 0) \<and>
   handleRequest_select CaseDone 0 0 (resultState exResolved) =
     Some (exFinished, HandlerReturned) \<and>
   regOps exFinished = [Store ''req-1'', Delete ''req-1''] \<and>
   globalResponseWriters exFinished = Map.empty"
proof -
  note h = exChosen_select
  have e: "env_uuid (exEnv False) = ''req-1''" "regOps initState = []"
    "globalResponseWriters initState = Map.empty"
    by (simp_all add: exEnv_def initState_def)
  have d: "rw_done (handles (resultState exResolved) 0)"
    by (simp add: exResolved_facts(3))
  have sel: "handleRequest_select CaseDone 0 0 (resultState exResolved) =
     Some (exFinished, HandlerReturned)"
    using exFinished_select by (simp add: exFinished_eq)
  have r: "rtranclp step (resultState exResolved) (resultState exResolved)" by simp
  note t1 = registry_entry_removed_once [where a = "NewServerAdapter '':8080''"
      and env = "exEnv False" and w = 0 and r = exRequest and s = initState
      and c = CaseTimeout and elapsed = 30 and h = 0 and t = exWaiting
      and t' = "registryDelete ''req-1'' exWaiting" and pc = "ReadWritten 0"]
  note t2 = registry_entry_removed_once [where c = CaseDone and elapsed = 0 and h = 0
      and t = "resultState exResolved" and t' = exFinished and pc = HandlerReturned
      and ?s0.0 = exWaiting and ?t0.0 = "resultState exResolved" and sc = 200
      and hs = "[''Content-Type'' \<mapsto> ''text/plain'']" and b = "''echo''"]
  from t1 h have a: "regOps (registryDelete ''req-1'' exWaiting) =
      [Store ''req-1'', Delete ''req-1'']"
    "globalResponseWriters (registryDelete ''req-1'' exWaiting) = Map.empty"
    by simp_all
  have i: "rw_requestID (handles (resultState exResolved) 0) = ''req-1''"
    by (simp add: exResolved_facts(3))
  from t2 sel i have b: "regOps exFinished = [Store ''req-1'', Delete ''req-1'']"
    "globalResponseWriters exFinished = Map.empty"
    by simp_all
  note cr = WriteResponse_callRun [OF exResolved_write]
  have n: "(0::nat) < nextHandle exWaiting" by simp
  from t2 n cr r have k: "rw_requestID (handles (resultState exResolved) 0) =
      rw_requestID (handles exWaiting 0)"
    by blast
  from h e d sel r a b cr k exWaiting_eq exResolved_write show ?thesis by simp
qed

end
